theory Spec2Isabelle
  imports Main
begin


section \<open>Markup nodes (src/html/HtmlEmitter.ts)\<close>

text \<open>
  An \<open>HtmlNode\<close> has a type, optional attributes and a content that is a list of nodes
  (\<open>BlockHtmlNode\<close>), a string (\<open>TextHtmlNode\<close>) or absent (\<open>SingleHtmlNode\<close>).
  Attributes are kept in insertion order. \<open>Undefined\<close> is the JavaScript value
  \<open>undefined\<close> standing where a node is expected (the first element of an empty array).
\<close>

type_synonym Attributes = "(string \<times> string) list"

datatype HtmlNode =
    BlockHtmlNode string "Attributes option" "HtmlNode list"
  | TextHtmlNode string "Attributes option" string
  | SingleHtmlNode string "Attributes option"
  | Undefined

text \<open>Exceptions: \<open>new Error(message)\<close>, and the \<open>TypeError\<close> of reading a property of \<open>undefined\<close>.\<close>

datatype error = Error string | TypeError string

text \<open>The untyped arguments \<open>arg1\<close>, \<open>arg2\<close> of \<open>tag\<close>: absent, a string or a node list.\<close>

datatype TagArg = Undef | S string | L "HtmlNode list"

fun truthy :: "TagArg \<Rightarrow> bool" where
  "truthy Undef = False"
| "truthy (S s) = (s \<noteq> [])"
| "truthy (L ns) = True"

fun className_of :: "TagArg \<Rightarrow> string option" where
  "className_of (S s) = Some s"
| "className_of a = None"

fun tag0 :: "string \<Rightarrow> string option \<Rightarrow> TagArg \<Rightarrow> HtmlNode" where
  "tag0 t className cont =
     (let attrs = (case className of
                     None \<Rightarrow> None
                   | Some c \<Rightarrow> if c \<noteq> [] then Some [(''class'', c)] else None)
      in case cont of
           L ns \<Rightarrow> BlockHtmlNode t attrs ns
         | S s \<Rightarrow> TextHtmlNode t attrs s
         | Undef \<Rightarrow> SingleHtmlNode t attrs)"

definition tag :: "string \<Rightarrow> TagArg \<Rightarrow> TagArg \<Rightarrow> HtmlNode" where
  "tag t arg1 arg2 =
     (if truthy arg2 then tag0 t (className_of arg1) arg2
      else tag0 t None arg1)"

definition table :: "string list \<Rightarrow> HtmlNode" where
  "table headings =
     tag ''table'' (L [
       tag ''thead'' (L [
         tag ''tr'' (L (map (\<lambda>h. tag ''th'' (S h) Undef) headings)) Undef
       ]) Undef
     ]) Undef"

text \<open>A table cell is given as a string or as a node.\<close>

datatype Cell = CellStr string | CellNode HtmlNode

definition tr :: "Cell list \<Rightarrow> HtmlNode" where
  "tr cells =
     tag ''tr'' (L (map (\<lambda>c. case c of
                              CellStr s \<Rightarrow> tag ''td'' (S s) Undef
                            | CellNode n \<Rightarrow> tag ''td'' (L [n]) Undef) cells)) Undef"

definition a_elem :: "string \<Rightarrow> string \<Rightarrow> string option \<Rightarrow> HtmlNode" where
  "a_elem text href className =
     (case className of
        Some c \<Rightarrow>
          if c \<noteq> [] then TextHtmlNode ''a'' (Some [(''class'', c), (''href'', href)]) text
          else TextHtmlNode ''a'' (Some [(''href'', href)]) text
      | None \<Rightarrow> TextHtmlNode ''a'' (Some [(''href'', href)]) text)"

section \<open>The builder \<open>HtmlEmitter\<close>\<close>

text \<open>
  The builder mutates nodes that are shared between the content array of their parent and
  the stack \<open>_root\<close>. The model keeps the opened nodes in a store: an address is an index
  into \<open>heap\<close>, an opened node is an \<open>Opened\<close> record whose content holds finished nodes by
  value (\<open>Val\<close>) and opened nodes by address (\<open>Ref\<close>). \<open>root_stack\<close> is the array \<open>_root\<close>
  (root first), \<open>current\<close> the field \<open>_current\<close>, \<open>styles\<close> the field \<open>_styles\<close>.
\<close>

datatype Child = Val HtmlNode | Ref nat

record Opened =
  otype :: string
  oattributes :: "Attributes option"
  ocontent :: "Child list"

record HtmlEmitter =
  heap :: "Opened list"
  root_stack :: "nat list"
  current :: nat
  styles :: "string list"

fun node_type :: "HtmlNode \<Rightarrow> string" where
  "node_type (BlockHtmlNode t at cs) = t"
| "node_type (TextHtmlNode t at s) = t"
| "node_type (SingleHtmlNode t at) = t"
| "node_type Undefined = []"

fun node_attributes :: "HtmlNode \<Rightarrow> Attributes option" where
  "node_attributes (BlockHtmlNode t at cs) = at"
| "node_attributes (TextHtmlNode t at s) = at"
| "node_attributes (SingleHtmlNode t at) = at"
| "node_attributes Undefined = None"

fun node_children :: "HtmlNode \<Rightarrow> HtmlNode list" where
  "node_children (BlockHtmlNode t at cs) = cs"
| "node_children n = []"

definition new_HtmlEmitter :: "string \<Rightarrow> HtmlEmitter" where
  "new_HtmlEmitter rootTag =
     \<lparr>heap = [\<lparr>otype = rootTag, oattributes = None, ocontent = []\<rparr>],
      root_stack = [0], current = 0, styles = []\<rparr>"

definition addStyle :: "string \<Rightarrow> HtmlEmitter \<Rightarrow> HtmlEmitter" where
  "addStyle style e = e\<lparr>styles := styles e @ [style]\<rparr>"

text \<open>\<open>node.content.push(c)\<close> for the opened node at address \<open>p\<close>.\<close>

definition push_content :: "nat \<Rightarrow> Child \<Rightarrow> Opened list \<Rightarrow> Opened list" where
  "push_content p c h = h[p := (h ! p)\<lparr>ocontent := ocontent (h ! p) @ [c]\<rparr>]"

definition appendChild :: "HtmlNode \<Rightarrow> HtmlEmitter \<Rightarrow> HtmlEmitter" where
  "appendChild child e = e\<lparr>heap := push_content (current e) (Val child) (heap e)\<rparr>"

text \<open>
  \<open>openNode(child)\<close>: the child object gets the next free address. Its parameter type is
  \<open>BlockHtmlNode\<close>; the content of the new object is the child's node list.
\<close>

definition openNode :: "HtmlNode \<Rightarrow> HtmlEmitter \<Rightarrow> HtmlEmitter" where
  "openNode child e =
     (let p = length (heap e) in
      e\<lparr>heap := push_content (current e) (Ref p) (heap e)
                 @ [\<lparr>otype = node_type child, oattributes = node_attributes child,
                     ocontent = map Val (node_children child)\<rparr>],
        current := p,
        root_stack := root_stack e @ [p]\<rparr>)"

definition closeNode :: "string \<Rightarrow> HtmlEmitter \<Rightarrow> (error + unit) \<times> HtmlEmitter" where
  "closeNode name e =
     (if otype (heap e ! current e) \<noteq> name then
        (Inl (Error (''Unexpected closing tag. Expected: '' @ otype (heap e ! current e)
                      @ '' Actual: '' @ name)), e)
      else if length (root_stack e) = 1 then
        (Inl (Error (''Unexpected closing tag: '' @ name)), e)
      else
        (Inr (), e\<lparr>root_stack := butlast (root_stack e),
                   current := last (butlast (root_stack e))\<rparr>))"

text \<open>\<open>openNode(child, fn)\<close>: open, run \<open>fn\<close> on the builder, close with the child's type.\<close>

definition openNodeFn ::
  "HtmlNode \<Rightarrow> (HtmlEmitter \<Rightarrow> (error + unit) \<times> HtmlEmitter) \<Rightarrow> HtmlEmitter
   \<Rightarrow> (error + unit) \<times> HtmlEmitter" where
  "openNodeFn child fn e =
     (case fn (openNode child e) of
        (Inl err, e') \<Rightarrow> (Inl err, e')
      | (Inr u, e') \<Rightarrow> closeNode (node_type child) e')"

text \<open>
  Reading the object at an address as a tree. An opened child is always allocated after
  its parent, so a reference is followed only to a larger address; any other reference
  reads as \<open>Undefined\<close>.
\<close>

function nodeAt :: "Opened list \<Rightarrow> nat \<Rightarrow> HtmlNode" where
  "nodeAt h p =
     (if p < length h then
        BlockHtmlNode (otype (h ! p)) (oattributes (h ! p))
          (map (\<lambda>c. case c of
                      Val n \<Rightarrow> n
                    | Ref q \<Rightarrow> if p < q then nodeAt h q else Undefined)
               (ocontent (h ! p)))
      else Undefined)"
  by pat_completeness auto
termination
  by (relation "measure (\<lambda>(h, p). length h - p)") auto

declare nodeAt.simps [simp del]

text \<open>The node that the child \<open>c\<close> of the object at \<open>p\<close> denotes.\<close>

definition read_child :: "Opened list \<Rightarrow> nat \<Rightarrow> Child \<Rightarrow> HtmlNode" where
  "read_child h p c = (case c of Val n \<Rightarrow> n | Ref q \<Rightarrow> if p < q then nodeAt h q else Undefined)"

text \<open>\<open>root()\<close> returns the object \<open>_root[0]\<close>.\<close>

definition root :: "HtmlEmitter \<Rightarrow> HtmlNode" where
  "root e = nodeAt (heap e) (hd (root_stack e))"

text \<open>
  \<open>emit()\<close> hands a head element with one stylesheet link per style, followed by the root,
  to the serializer \<open>HtmlCreator.renderHTML\<close>, which is not part of this repository and is
  a parameter here.
\<close>

definition headElement :: "string list \<Rightarrow> HtmlNode" where
  "headElement styleList =
     tag ''head'' (L (map (\<lambda>s. SingleHtmlNode ''link''
                               (Some [(''rel'', ''stylesheet''), (''type'', ''text/css''), (''href'', s)]))
                          styleList)) Undef"

definition emit :: "(HtmlNode list \<Rightarrow> 'p) \<Rightarrow> HtmlEmitter \<Rightarrow> 'p" where
  "emit renderHTML e = renderHTML [headElement (styles e), root e]"

subsection \<open>Sequences of builder calls\<close>

datatype Call = AppendChild HtmlNode | OpenNode HtmlNode | CloseNode string

fun call :: "Call \<Rightarrow> HtmlEmitter \<Rightarrow> (error + unit) \<times> HtmlEmitter" where
  "call (AppendChild n) e = (Inr (), appendChild n e)"
| "call (OpenNode n) e = (Inr (), openNode n e)"
| "call (CloseNode name) e = closeNode name e"

text \<open>A sequence of calls stops at the first exception.\<close>

fun run :: "Call list \<Rightarrow> HtmlEmitter \<Rightarrow> (error + unit) \<times> HtmlEmitter" where
  "run [] e = (Inr (), e)"
| "run (c # cs) e =
     (case call c e of
        (Inl err, e') \<Rightarrow> (Inl err, e')
      | (Inr u, e') \<Rightarrow> run cs e')"

text \<open>
  A balanced call sequence is the flattening of a forest: a leaf is one \<open>appendChild\<close>, an
  inner node is an \<open>openNode\<close> of a block node, the calls of its subtrees, and the
  \<open>closeNode\<close> with the same tag. \<open>mirror\<close> is the tree such a forest describes.
\<close>

datatype Nesting = Leaf HtmlNode | Nested string "Attributes option" "HtmlNode list" "Nesting list"

fun calls_of :: "Nesting \<Rightarrow> Call list" where
  "calls_of (Leaf n) = [AppendChild n]"
| "calls_of (Nested t at cs ns) =
     OpenNode (BlockHtmlNode t at cs) # concat (map calls_of ns) @ [CloseNode t]"

fun mirror :: "Nesting \<Rightarrow> HtmlNode" where
  "mirror (Leaf n) = n"
| "mirror (Nested t at cs ns) = BlockHtmlNode t at (cs @ map mirror ns)"

subsection \<open>Invariant of the store\<close>

text \<open>
  Every reference in the content of the object at address \<open>p\<close> points to a later,
  allocated address.
\<close>

definition heap_ok :: "Opened list \<Rightarrow> bool" where
  "heap_ok h = (\<forall>p < length h. \<forall>q. Ref q \<in> set (ocontent (h ! p)) \<longrightarrow> p < q \<and> q < length h)"

definition emitter_inv :: "HtmlEmitter \<Rightarrow> bool" where
  "emitter_inv e =
     (root_stack e \<noteq> [] \<and> current e = last (root_stack e)
      \<and> (\<forall>p \<in> set (root_stack e). p < length (heap e)) \<and> heap_ok (heap e))"

fun add_children :: "HtmlNode \<Rightarrow> HtmlNode list \<Rightarrow> HtmlNode" where
  "add_children (BlockHtmlNode t at cs) ns = BlockHtmlNode t at (cs @ ns)"
| "add_children n ns = n"

text \<open>
  \<open>grown e e' ns\<close>: from \<open>e\<close> to \<open>e'\<close> the node that was current in \<open>e\<close> received the
  children \<open>ns\<close>, in this order, and no other object of \<open>e\<close> changed.
  \<open>appended e e' ns\<close>: moreover the stack, the current node and the styles are the same.
\<close>

definition grown :: "HtmlEmitter \<Rightarrow> HtmlEmitter \<Rightarrow> HtmlNode list \<Rightarrow> bool" where
  "grown e e' ns =
     (length (heap e) \<le> length (heap e')
      \<and> (\<forall>p < length (heap e). p \<noteq> current e \<longrightarrow> heap e' ! p = heap e ! p)
      \<and> nodeAt (heap e') (current e) = add_children (nodeAt (heap e) (current e)) ns)"

definition appended :: "HtmlEmitter \<Rightarrow> HtmlEmitter \<Rightarrow> HtmlNode list \<Rightarrow> bool" where
  "appended e e' ns =
     (emitter_inv e' \<and> root_stack e' = root_stack e \<and> current e' = current e
      \<and> styles e' = styles e \<and> grown e e' ns)"




section \<open>The API model and the doc comments\<close>

text \<open>
  The entity tree (\<open>@microsoft/api-extractor-model\<close>) and the parsed doc comments
  (\<open>@microsoft/tsdoc\<close>) are supplied from outside. The model keeps of them what
  \<open>HtmlDocumenter.ts\<close> reads.
\<close>

datatype ApiItemKind =
    CallSignature | Class | Constructor | ConstructSignature | EntryPoint | Enum
  | EnumMember | Function | IndexSignature | Interface | Method | MethodSignature
  | Model | Namespace | Package | Property | PropertySignature | TypeAlias | Variable
  | NoneKind

text \<open>The string value of a kind, as it is concatenated into an error message.\<close>

fun kind_text :: "ApiItemKind \<Rightarrow> string" where
  "kind_text CallSignature = ''CallSignature''"
| "kind_text Class = ''Class''"
| "kind_text Constructor = ''Constructor''"
| "kind_text ConstructSignature = ''ConstructSignature''"
| "kind_text EntryPoint = ''EntryPoint''"
| "kind_text Enum = ''Enum''"
| "kind_text EnumMember = ''EnumMember''"
| "kind_text Function = ''Function''"
| "kind_text IndexSignature = ''IndexSignature''"
| "kind_text Interface = ''Interface''"
| "kind_text Method = ''Method''"
| "kind_text MethodSignature = ''MethodSignature''"
| "kind_text Model = ''Model''"
| "kind_text Namespace = ''Namespace''"
| "kind_text Package = ''Package''"
| "kind_text Property = ''Property''"
| "kind_text PropertySignature = ''PropertySignature''"
| "kind_text TypeAlias = ''TypeAlias''"
| "kind_text Variable = ''Variable''"
| "kind_text NoneKind = ''None''"

text \<open>
  Doc nodes, by \<open>DocNodeKind\<close>. A block carries \<open>content.nodes\<close>. A link tag carries
  \<open>linkText\<close>, \<open>urlDestination\<close> and \<open>codeDestination\<close>, each possibly undefined; a code
  destination is kept as the text \<open>emitAsTsdoc()\<close> gives for it. \<open>DocOther\<close> is a node of
  any other kind, with the string value of the kind.
\<close>

datatype DocNode =
    DocParagraph "DocNode list"
  | DocBlock "DocNode list"
  | DocInlineTag string
  | DocSoftBreak
  | DocCodeSpan string
  | DocFencedCode string
  | DocEscapedText string
  | DocLinkTag "string option" "string option" "string option"
  | DocPlainText string
  | DocHtmlStartTag string
  | DocHtmlEndTag string
  | DocOther string

text \<open>
  A doc comment: the nodes of the summary section, of the remarks and returns blocks when
  present, and the custom blocks as pairs of \<open>blockTag.tagNameWithUpperCase\<close> and
  \<open>content.nodes\<close>.
\<close>

record DocComment =
  summarySection :: "DocNode list"
  remarksBlock :: "DocNode list option"
  returnsBlock :: "DocNode list option"
  customBlocks :: "(string \<times> DocNode list) list"

record Parameter =
  parameterName :: string
  parameterTypeExcerpt :: string
  tsdocParamBlock :: "DocNode list option"

text \<open>\<open>ApiParameterListMixin\<close>: the one-based overload index and the parameters.\<close>

record ParameterList =
  overloadIndex :: int
  parameters :: "Parameter list"

text \<open>\<open>ApiDeclaredItem\<close>: \<open>excerpt.text\<close> and \<open>getExcerptWithModifiers()\<close>.\<close>

record Declared =
  excerptText :: string
  excerptWithModifiers :: string

text \<open>\<open>ApiPropertyItem\<close>: \<open>propertyTypeExcerpt.text\<close> and \<open>isEventProperty\<close>.\<close>

record PropertyItem =
  propertyTypeExcerpt :: string
  isEventProperty :: bool

datatype ExcerptTokenKind = Content | Reference

datatype ReleaseTag = NoTag | Internal | Alpha | Beta | Public

text \<open>
  An API item. A field of option type is \<open>None\<close> when the item is not of the class or
  mixin that has it (or, for \<open>tsdocComment\<close> and \<open>extendsType\<close>, when the property is
  undefined). \<open>mergedSiblings\<close> is the result of \<open>getMergedSiblings()\<close> and
  \<open>scopedNameWithinPackage\<close> that of \<open>getScopedNameWithinPackage()\<close>. The parent chain of
  an item is not stored: functions that read \<open>getHierarchy()\<close> take the ancestors of the
  item (root first) as an argument, and the hierarchy is the ancestors followed by the
  item itself.
\<close>

datatype ApiItem = ApiItem
  (kind: ApiItemKind)
  (displayName: string)
  (scopedNameWithinPackage: string)
  (mergedSiblings: "ApiItem list")
  (members: "ApiItem list")
  (tsdocComment: "DocComment option")
  (declared: "Declared option")
  (releaseTag: "ReleaseTag option")
  (isStatic: "bool option")
  (propertyItem: "PropertyItem option")
  (parameterList: "ParameterList option")
  (returnTypeExcerpt: "string option")
  (extendsType: "(ExcerptTokenKind \<times> string) list option")
  (initializerExcerpt: "string option")

definition getHierarchy :: "ApiItem list \<Rightarrow> ApiItem \<Rightarrow> ApiItem list" where
  "getHierarchy ancestors apiItem = ancestors @ [apiItem]"

text \<open>An item together with its ancestors, where the source passes an \<open>ApiItem\<close> around.\<close>

type_synonym Located = "ApiItem list \<times> ApiItem"

record ResolveResult =
  resolvedApiItem :: "Located option"
  errorMessage :: "string option"

text \<open>Side effects of a run, in order: lines on the console and files written.\<close>

datatype 'p Effect = Log string | WriteFile string 'p

type_synonym ('r, 'p) io = "(error + 'r) \<times> 'p Effect list"

text \<open>
  What the documenter uses and this repository's sources under \<open>src/\<close> do not define:
  \<open>Utilities.getSafeFilenameForName\<close>, \<open>Utilities.getConciseSignature\<close>,
  \<open>PackageName.getUnscopedName\<close>, \<open>ApiModel.resolveDeclarationReference\<close>, the serializer
  \<open>HtmlCreator.renderHTML\<close> and \<open>path.join\<close>; with the fields \<open>_apiModel\<close> and
  \<open>_outputFolder\<close> of the documenter.
\<close>

record 'p Env =
  getSafeFilenameForName :: "string \<Rightarrow> string"
  getConciseSignature :: "ApiItem \<Rightarrow> string"
  getUnscopedName :: "string \<Rightarrow> string"
  resolveDeclarationReference :: "string \<Rightarrow> Located \<Rightarrow> ResolveResult"
  renderHTML :: "HtmlNode list \<Rightarrow> 'p"
  pathJoin :: "string \<Rightarrow> string \<Rightarrow> string"
  apiModel :: ApiItem
  outputFolder :: string

section \<open>File names (\<open>_getFilenameForApiItem\<close>)\<close>

text \<open>A number in a template literal: decimal digits, with a minus sign when negative.\<close>

function nat_text :: "nat \<Rightarrow> string" where
  "nat_text n = (if n < 10 then [''0123456789'' ! n]
                 else nat_text (n div 10) @ [''0123456789'' ! (n mod 10)])"
  by pat_completeness auto
termination
  by (relation "measure (\<lambda>n. n)") auto

declare nat_text.simps [simp del]

definition number_text :: "int \<Rightarrow> string" where
  "number_text i = (if i < 0 then ''-'' @ nat_text (nat (- i)) else nat_text (nat i))"

text \<open>The name a hierarchy item contributes, with the suffix of an overload.\<close>

definition qualifiedName :: "'p Env \<Rightarrow> ApiItem \<Rightarrow> string" where
  "qualifiedName env hierarchyItem =
     getSafeFilenameForName env (displayName hierarchyItem)
     @ (case parameterList hierarchyItem of
          Some pl \<Rightarrow> if overloadIndex pl > 1 then ''_'' @ number_text (overloadIndex pl - 1) else []
        | None \<Rightarrow> [])"

text \<open>One round of the loop over the hierarchy: the new value of \<open>baseName\<close>.\<close>

definition hierarchyStep :: "'p Env \<Rightarrow> string \<Rightarrow> ApiItem \<Rightarrow> string" where
  "hierarchyStep env baseName hierarchyItem =
     (if kind hierarchyItem = Model \<or> kind hierarchyItem = EntryPoint then baseName
      else if kind hierarchyItem = Package then
        getSafeFilenameForName env (getUnscopedName env (displayName hierarchyItem))
      else baseName @ ''.'' @ qualifiedName env hierarchyItem)"

definition getFilenameForApiItem :: "'p Env \<Rightarrow> ApiItem list \<Rightarrow> ApiItem \<Rightarrow> string" where
  "getFilenameForApiItem env ancestors apiItem =
     (if kind apiItem = Model then ''index.html''
      else foldl (hierarchyStep env) [] (getHierarchy ancestors apiItem) @ ''.html'')"

definition getLinkFilenameForApiItem :: "'p Env \<Rightarrow> ApiItem list \<Rightarrow> ApiItem \<Rightarrow> string" where
  "getLinkFilenameForApiItem env ancestors apiItem = ''./'' @ getFilenameForApiItem env ancestors apiItem"

section \<open>Translation of doc nodes (\<open>_createDocNodes\<close>)\<close>

text \<open>\<open>x || y\<close> on strings that may be undefined: the empty string is falsy.\<close>

fun or_else :: "string option \<Rightarrow> string \<Rightarrow> string" where
  "or_else None d = d"
| "or_else (Some s) d = (if s \<noteq> [] then s else d)"

text \<open>\<open>if (x)\<close> on a string that may be undefined: the string when it is truthy.\<close>

fun truthy_string :: "string option \<Rightarrow> string option" where
  "truthy_string None = None"
| "truthy_string (Some s) = (if s \<noteq> [] then Some s else None)"

text \<open>
  \<open>createDocNodes\<close> makes a new builder, runs the \<open>switch\<close> (\<open>translateNode\<close>) on every node in
  order (\<open>forEachNode\<close>) and returns the content of the root, whatever is on the stack.
  An exception ends the translation; the lines logged before it remain.
\<close>

fun createDocNodes :: "'p Env \<Rightarrow> Located \<Rightarrow> DocNode list \<Rightarrow> (HtmlNode list, 'p) io"
and forEachNode :: "'p Env \<Rightarrow> Located \<Rightarrow> DocNode list \<Rightarrow> HtmlEmitter \<Rightarrow> (HtmlEmitter, 'p) io"
and translateNode :: "'p Env \<Rightarrow> Located \<Rightarrow> DocNode \<Rightarrow> HtmlEmitter \<Rightarrow> (HtmlEmitter, 'p) io"
where
  "createDocNodes env contextApiItem nodes =
     (case forEachNode env contextApiItem nodes (new_HtmlEmitter ''body'') of
        (Inl err, l) \<Rightarrow> (Inl err, l)
      | (Inr result, l) \<Rightarrow> (Inr (node_children (root result)), l))"
| "forEachNode env contextApiItem [] result = (Inr result, [])"
| "forEachNode env contextApiItem (node # nodes) result =
     (case translateNode env contextApiItem node result of
        (Inl err, l) \<Rightarrow> (Inl err, l)
      | (Inr result', l) \<Rightarrow>
          (case forEachNode env contextApiItem nodes result' of (r, l') \<Rightarrow> (r, l @ l')))"
| "translateNode env contextApiItem (DocParagraph nodes) result =
     (case createDocNodes env contextApiItem nodes of
        (Inl err, l) \<Rightarrow> (Inl err, l)
      | (Inr ns, l) \<Rightarrow> (Inr (appendChild (tag ''p'' (L ns) Undef) result), l))"
| "translateNode env contextApiItem (DocBlock nodes) result =
     (case createDocNodes env contextApiItem nodes of
        (Inl err, l) \<Rightarrow> (Inl err, l)
      | (Inr ns, l) \<Rightarrow> (Inr (appendChild (tag ''div'' (L ns) Undef) result), l))"
| "translateNode env contextApiItem (DocInlineTag tagName) result =
     (Inr (appendChild (tag ''span'' (S tagName) Undef) result), [])"
| "translateNode env contextApiItem DocSoftBreak result = (Inr result, [])"
| "translateNode env contextApiItem (DocCodeSpan code) result =
     (Inr (appendChild (tag ''code'' (S code) Undef) result), [])"
| "translateNode env contextApiItem (DocFencedCode code) result =
     (Inr (appendChild (tag ''pre'' (S code) Undef) result), [])"
| "translateNode env contextApiItem (DocEscapedText decodedText) result =
     (Inr (appendChild (tag ''span'' (S decodedText) Undef) result), [])"
| "translateNode env contextApiItem (DocLinkTag linkText urlDestination codeDestination) result =
     (case truthy_string urlDestination of
        Some url \<Rightarrow> (Inr (appendChild (a_elem (or_else linkText url) url None) result), [])
      | None \<Rightarrow>
         (case codeDestination of
            None \<Rightarrow> (Inr result, [])
          | Some reference \<Rightarrow>
              (let lookup = resolveDeclarationReference env reference contextApiItem in
               case resolvedApiItem lookup of
                 Some (ancestors, resolved) \<Rightarrow>
                   (let filename = getLinkFilenameForApiItem env ancestors resolved;
                        linkText' = or_else linkText (scopedNameWithinPackage resolved)
                    in (Inr (appendChild (a_elem linkText' filename None) result), []))
               | None \<Rightarrow>
                   (case truthy_string (errorMessage lookup) of
                      Some message \<Rightarrow>
                        (Inr result,
                         [Log (''WARNING: Unable to resolve reference '' @ [CHR 0x22] @ reference
                               @ [CHR 0x22] @ '': '' @ message)])
                    | None \<Rightarrow> (Inr result, [])))))"
| "translateNode env contextApiItem (DocPlainText txt) result =
     (Inr (appendChild (tag ''span'' (S txt) Undef) result), [])"
| "translateNode env contextApiItem (DocHtmlStartTag nm) result =
     (Inr (openNode (tag nm (L []) Undef) result), [])"
| "translateNode env contextApiItem (DocHtmlEndTag nm) result =
     (case closeNode nm result of
        (Inl err, result') \<Rightarrow> (Inl err, [])
      | (Inr u, result') \<Rightarrow> (Inr result', []))"
| "translateNode env contextApiItem (DocOther k) result =
     (Inl (Error (''Unsupported DocNode kind: '' @ k)), [])"

section \<open>Page generation (\<open>HtmlDocumenter\<close>)\<close>

text \<open>Running two steps in order: the second one only when the first did not throw.\<close>

definition prepend :: "'p Effect list \<Rightarrow> ('r, 'p) io \<Rightarrow> ('r, 'p) io" where
  "prepend l m = (fst m, l @ snd m)"

definition then_io :: "(unit, 'p) io \<Rightarrow> ('r, 'p) io \<Rightarrow> ('r, 'p) io" where
  "then_io m1 m2 = (case m1 of (Inl err, l) \<Rightarrow> (Inl err, l) | (Inr u, l) \<Rightarrow> (fst m2, l @ snd m2))"

text \<open>\<open>table.content.push(row)\<close> and \<open>table.content.length\<close> on a table not yet appended.\<close>

definition push_row :: "HtmlNode \<Rightarrow> HtmlNode \<Rightarrow> HtmlNode" where
  "push_row tbl row = add_children tbl [row]"

definition content_length :: "HtmlNode \<Rightarrow> nat" where
  "content_length tbl = length (node_children tbl)"

text \<open>\<open>nodes[0]\<close>: \<open>undefined\<close> on the empty array.\<close>

fun first_node :: "HtmlNode list \<Rightarrow> HtmlNode" where
  "first_node [] = Undefined"
| "first_node (n # ns) = n"

text \<open>\<open>String.prototype.trim\<close>, for the white space of ASCII.\<close>

definition is_space :: "char \<Rightarrow> bool" where
  "is_space c = (c \<in> set [CHR '' '', CHR 0x09, CHR 0x0A, CHR 0x0B, CHR 0x0C, CHR 0x0D])"

definition trim :: "string \<Rightarrow> string" where
  "trim s = rev (dropWhile is_space (rev (dropWhile is_space s)))"

subsection \<open>Cells\<close>

definition createTitleCell :: "'p Env \<Rightarrow> ApiItem list \<Rightarrow> ApiItem \<Rightarrow> HtmlNode" where
  "createTitleCell env ancestors apiItem =
     a_elem (getConciseSignature env apiItem)
            (getLinkFilenameForApiItem env ancestors apiItem) (Some ''ref'')"

definition createDescriptionCell :: "'p Env \<Rightarrow> ApiItem \<Rightarrow> Located \<Rightarrow> (HtmlNode, 'p) io" where
  "createDescriptionCell env apiItem contextApiItem =
     (case tsdocComment apiItem of
        Some c \<Rightarrow>
          (case createDocNodes env contextApiItem (summarySection c) of
             (Inl err, l) \<Rightarrow> (Inl err, l)
           | (Inr ns, l) \<Rightarrow> (Inr (tag ''div'' (S ''description'') (L ns)), l))
      | None \<Rightarrow> (Inr (tag ''div'' (S ''description'') (L [])), []))"

definition createModifiersCell :: "ApiItem \<Rightarrow> HtmlNode" where
  "createModifiersCell apiItem =
     (if isStatic apiItem = Some True then tag ''code'' (S ''modifiers'') (S ''static'')
      else tag ''div'' (S ''modifiers'') Undef)"

definition createPropertyTypeCell :: "ApiItem \<Rightarrow> HtmlNode" where
  "createPropertyTypeCell apiItem =
     (case propertyItem apiItem of
        Some p \<Rightarrow> tag ''code'' (S ''type'') (S (propertyTypeExcerpt p))
      | None \<Rightarrow> tag ''code'' (S ''type'') Undef)"

subsection \<open>The head of a page\<close>

text \<open>
  The loop of \<open>_writeBreadcrumb\<close> over the hierarchy; \<open>passed\<close> holds the hierarchy items
  already passed, which are the ancestors of the next one.
\<close>

fun breadcrumbLoop :: "'p Env \<Rightarrow> ApiItem list \<Rightarrow> ApiItem list \<Rightarrow> HtmlEmitter \<Rightarrow> HtmlEmitter" where
  "breadcrumbLoop env passed [] output = output"
| "breadcrumbLoop env passed (hierarchyItem # rest) output =
     breadcrumbLoop env (passed @ [hierarchyItem]) rest
       (if kind hierarchyItem = Model \<or> kind hierarchyItem = EntryPoint then output
        else appendChild (a_elem (displayName hierarchyItem)
                            (getLinkFilenameForApiItem env passed hierarchyItem) (Some ''breadcrumb''))
               (appendChild (tag ''span'' (S ''breadcrumb'') (S '' / '')) output))"

definition writeBreadcrumb :: "'p Env \<Rightarrow> HtmlEmitter \<Rightarrow> Located \<Rightarrow> HtmlEmitter" where
  "writeBreadcrumb env output apiItem =
     breadcrumbLoop env [] (getHierarchy (fst apiItem) (snd apiItem))
       (appendChild (a_elem ''Home'' (getLinkFilenameForApiItem env [] (apiModel env)) (Some ''breadcrumb''))
          output)"

text \<open>The first \<open>switch\<close> of \<open>_writeApiItemPageWithSiblings\<close>: the page header.\<close>

definition writePageHeader :: "'p Env \<Rightarrow> ApiItem \<Rightarrow> HtmlEmitter \<Rightarrow> (HtmlEmitter, 'p) io" where
  "writePageHeader env first output =
     (let scopedName = scopedNameWithinPackage first;
          h1 = (\<lambda>title. appendChild (tag ''h1'' (S ''page-header'') (S title)) output)
      in case kind first of
           Class \<Rightarrow> (Inr (h1 (scopedName @ '' class'')), [])
         | Enum \<Rightarrow> (Inr (h1 (scopedName @ '' enum'')), [])
         | Interface \<Rightarrow> (Inr (h1 (scopedName @ '' interface'')), [])
         | Constructor \<Rightarrow> (Inr (h1 scopedName), [])
         | ConstructSignature \<Rightarrow> (Inr (h1 scopedName), [])
         | Method \<Rightarrow> (Inr (h1 (scopedName @ '' method'')), [])
         | MethodSignature \<Rightarrow> (Inr (h1 (scopedName @ '' method'')), [])
         | Function \<Rightarrow> (Inr (h1 (scopedName @ '' function'')), [])
         | Model \<Rightarrow> (Inr (h1 (scopedName @ '' API Reference'')), [])
         | Namespace \<Rightarrow> (Inr (h1 (scopedName @ '' namespace'')), [])
         | Package \<Rightarrow>
             (Inr (h1 (getUnscopedName env (displayName first) @ '' package'')),
              [Log (''Writing '' @ displayName first @ '' package'')])
         | Property \<Rightarrow> (Inr (h1 (scopedName @ '' property'')), [])
         | PropertySignature \<Rightarrow> (Inr (h1 (scopedName @ '' property'')), [])
         | TypeAlias \<Rightarrow> (Inr (h1 (scopedName @ '' type'')), [])
         | Variable \<Rightarrow> (Inr (h1 (scopedName @ '' variable'')), [])
         | _ \<Rightarrow> (Inl (Error (''Unsupported API item kind: '' @ kind_text (kind first))), []))"

text \<open>\<open>_writeBetaWarning\<close>: its body is commented out.\<close>

definition writeBetaWarning :: "HtmlEmitter \<Rightarrow> HtmlEmitter" where
  "writeBetaWarning output = output"

text \<open>The first \<open>apiItems.forEach\<close>: the summary sections.\<close>

fun writeSummaries :: "'p Env \<Rightarrow> Located \<Rightarrow> ApiItem list \<Rightarrow> HtmlEmitter \<Rightarrow> (HtmlEmitter, 'p) io" where
  "writeSummaries env contextApiItem [] output = (Inr output, [])"
| "writeSummaries env contextApiItem (apiItem # rest) output =
     (case tsdocComment apiItem of
        None \<Rightarrow> writeSummaries env contextApiItem rest output
      | Some c \<Rightarrow>
          (case createDocNodes env contextApiItem (summarySection c) of
             (Inl err, l) \<Rightarrow> (Inl err, l)
           | (Inr ns, l) \<Rightarrow>
               prepend l (writeSummaries env contextApiItem rest
                            (appendChild (tag ''div'' (S ''summary'') (L ns)) output))))"

text \<open>The signature heading and one block for each declared item with a non-empty excerpt.\<close>

definition writeSignatures :: "ApiItem list \<Rightarrow> HtmlEmitter \<Rightarrow> HtmlEmitter" where
  "writeSignatures apiItems output =
     (let signatures = filter (\<lambda>d. length (excerptText d) > 0)
                         (map the (filter (\<lambda>d. d \<noteq> None) (map declared apiItems)))
      in foldl (\<lambda>out d. appendChild (tag ''pre'' (S ''signature'') (S (excerptWithModifiers d))) out)
           (if length signatures > 0
            then appendChild (tag ''div'' (S ''signature-heading'') (S ''Signature'')) output
            else output)
           signatures)"

definition writeRemarksSection :: "'p Env \<Rightarrow> HtmlEmitter \<Rightarrow> ApiItem \<Rightarrow> Located \<Rightarrow> (HtmlEmitter, 'p) io" where
  "writeRemarksSection env output apiItem contextApiItem =
     (case tsdocComment apiItem of
        None \<Rightarrow> (Inr output, [])
      | Some c \<Rightarrow>
          (case remarksBlock c of
             None \<Rightarrow> (Inr output, [])
           | Some nodes \<Rightarrow>
               (case createDocNodes env contextApiItem nodes of
                  (Inl err, l) \<Rightarrow> (Inl err, l)
                | (Inr ns, l) \<Rightarrow>
                    (Inr (appendChild (tag ''div'' (L ns) Undef)
                            (appendChild (tag ''h3'' (S ''section-heading'') (S ''Remarks'')) output)),
                     l))))"

fun writeRemarks :: "'p Env \<Rightarrow> Located \<Rightarrow> ApiItem list \<Rightarrow> HtmlEmitter \<Rightarrow> (HtmlEmitter, 'p) io" where
  "writeRemarks env contextApiItem [] output = (Inr output, [])"
| "writeRemarks env contextApiItem (apiItem # rest) output =
     (case writeRemarksSection env output apiItem contextApiItem of
        (Inl err, l) \<Rightarrow> (Inl err, l)
      | (Inr output', l) \<Rightarrow> prepend l (writeRemarks env contextApiItem rest output'))"

text \<open>
  \<open>_writeApiItemPageWithSiblings\<close> up to the last \<open>forEach\<close>: the new builder with its
  style, the header, the opened main container, the breadcrumb, the page header, the
  summaries, the signatures and the remarks.
\<close>

definition siteHeader :: HtmlNode where
  "siteHeader =
     tag ''header'' (L [
       tag ''div'' (S ''header-top'') (L [
         a_elem [] ''https://developers.symphony.com/'' (Some ''header-logo'')]),
       tag ''div'' (S ''header-bottom'') (L [])]) Undef"

definition mainContainer :: HtmlNode where
  "mainContainer = tag ''div'' (S ''main'') (L [])"

definition writePageTop :: "'p Env \<Rightarrow> ApiItem list \<Rightarrow> ApiItem list \<Rightarrow> (HtmlEmitter, 'p) io" where
  "writePageTop env ancestors apiItems =
     (let first = hd apiItems;
          output0 = addStyle ''styles.css'' (new_HtmlEmitter ''body'');
          output1 = appendChild siteHeader output0;
          output2 = openNode mainContainer output1;
          output3 = writeBreadcrumb env output2 (ancestors, first)
      in case writePageHeader env first output3 of
           (Inl err, l) \<Rightarrow> (Inl err, l)
         | (Inr output4, l) \<Rightarrow>
             (let output5 = (if list_ex (\<lambda>apiItem. releaseTag apiItem = Some Beta) apiItems
                             then writeBetaWarning output4 else output4)
              in case writeSummaries env (ancestors, first) apiItems output5 of
                   (Inl err, l') \<Rightarrow> (Inl err, l @ l')
                 | (Inr output6, l') \<Rightarrow>
                     prepend (l @ l')
                       (writeRemarks env (ancestors, first) apiItems
                          (writeSignatures apiItems output6))))"

text \<open>
  The end of \<open>_writeApiItemPageWithSiblings\<close>: close the main container, serialize, and
  write the file named after the first item. (The line-ending option of the file writer
  is left out.)
\<close>

definition finishPage :: "'p Env \<Rightarrow> ApiItem list \<Rightarrow> ApiItem \<Rightarrow> HtmlEmitter \<Rightarrow> (unit, 'p) io" where
  "finishPage env ancestors first output =
     (case closeNode ''div'' output of
        (Inl err, output') \<Rightarrow> (Inl err, [])
      | (Inr u, output') \<Rightarrow>
          (Inr (),
           [WriteFile (pathJoin env (outputFolder env) (getFilenameForApiItem env ancestors first))
                      (emit (renderHTML env) output')]))"

subsection \<open>Function-like items\<close>

text \<open>
  The loop of \<open>_writeParameterTables\<close>. The variable \<open>description\<close> is declared before the
  loop and assigned only for a parameter that has a doc block.
\<close>

fun parameterRows ::
  "'p Env \<Rightarrow> Located \<Rightarrow> Parameter list \<Rightarrow> Cell \<Rightarrow> HtmlNode \<Rightarrow> (HtmlNode, 'p) io" where
  "parameterRows env contextApiItem [] description parametersTable = (Inr parametersTable, [])"
| "parameterRows env contextApiItem (apiParameter # rest) description parametersTable =
     (case tsdocParamBlock apiParameter of
        Some nodes \<Rightarrow>
          (case createDocNodes env contextApiItem nodes of
             (Inl err, l) \<Rightarrow> (Inl err, l)
           | (Inr ns, l) \<Rightarrow>
               prepend l
                 (parameterRows env contextApiItem rest (CellNode (first_node ns))
                    (push_row parametersTable
                       (tr [CellStr (parameterName apiParameter),
                            CellStr (parameterTypeExcerpt apiParameter),
                            CellNode (first_node ns)]))))
      | None \<Rightarrow>
          parameterRows env contextApiItem rest description
            (push_row parametersTable
               (tr [CellStr (parameterName apiParameter),
                    CellStr (parameterTypeExcerpt apiParameter),
                    description])))"

definition writeParameterTables :: "'p Env \<Rightarrow> HtmlEmitter \<Rightarrow> ApiItem \<Rightarrow> Located \<Rightarrow> (HtmlEmitter, 'p) io" where
  "writeParameterTables env output apiParameterListMixin contextApiItem =
     (case parameterList apiParameterListMixin of
        None \<Rightarrow> (Inl (TypeError ''apiParameterListMixin.parameters is not iterable''), [])
      | Some pl \<Rightarrow>
          (case parameterRows env contextApiItem (parameters pl) (CellStr [])
                  (table [''Parameter'', ''Type'', ''Description'']) of
             (Inl err, l) \<Rightarrow> (Inl err, l)
           | (Inr parametersTable, l) \<Rightarrow>
               (let output1 =
                      (if content_length parametersTable > 1
                       then appendChild parametersTable
                              (appendChild (tag ''h3'' (S ''section-heading'') (S ''Parameters'')) output)
                       else output)
                in case returnTypeExcerpt apiParameterListMixin of
                     None \<Rightarrow> (Inr output1, l)
                   | Some returnType \<Rightarrow>
                       (case tsdocComment apiParameterListMixin of
                          None \<Rightarrow> (Inr output1, l)
                        | Some c \<Rightarrow>
                            (case returnsBlock c of
                               None \<Rightarrow> (Inr output1, l)
                             | Some nodes \<Rightarrow>
                                 (case createDocNodes env contextApiItem nodes of
                                    (Inl err, l') \<Rightarrow> (Inl err, l @ l')
                                  | (Inr ns, l') \<Rightarrow>
                                      (Inr (appendChild
                                              (push_row (table [''Type'', ''Description''])
                                                 (tr [CellStr (trim returnType),
                                                      CellNode (first_node ns)]))
                                              (appendChild
                                                 (tag ''h3'' (S ''section-heading'') (S ''Returns''))
                                                 output1)),
                                       l @ l')))))))"

text \<open>The loop of \<open>_writeThrowsSection\<close> over the blocks tagged \<open>@throws\<close>.\<close>

fun throwsRows ::
  "'p Env \<Rightarrow> Located \<Rightarrow> DocNode list list \<Rightarrow> HtmlNode \<Rightarrow> (HtmlNode, 'p) io" where
  "throwsRows env contextApiItem [] exceptionsTable = (Inr exceptionsTable, [])"
| "throwsRows env contextApiItem (throwsBlock # rest) exceptionsTable =
     (case createDocNodes env contextApiItem throwsBlock of
        (Inl err, l) \<Rightarrow> (Inl err, l)
      | (Inr ns, l) \<Rightarrow>
          prepend l
            (throwsRows env contextApiItem rest
               (push_row exceptionsTable (tr [CellNode (tag ''span'' (L ns) Undef)]))))"

definition writeThrowsSection :: "'p Env \<Rightarrow> HtmlEmitter \<Rightarrow> ApiItem \<Rightarrow> Located \<Rightarrow> (HtmlEmitter, 'p) io" where
  "writeThrowsSection env output apiItem contextApiItem =
     (case tsdocComment apiItem of
        None \<Rightarrow> (Inr output, [])
      | Some c \<Rightarrow>
          (let throwsBlocks = map snd (filter (\<lambda>x. fst x = ''@THROWS'') (customBlocks c))
           in case throwsRows env contextApiItem throwsBlocks (table [''Error'']) of
                (Inl err, l) \<Rightarrow> (Inl err, l)
              | (Inr exceptionsTable, l) \<Rightarrow>
                  (Inr (appendChild exceptionsTable
                          (appendChild (tag ''h3'' (S ''section-heading'') (S ''Throws'')) output)),
                   l)))"

subsection \<open>Enumerations\<close>

fun enumRows :: "'p Env \<Rightarrow> Located \<Rightarrow> ApiItem list \<Rightarrow> HtmlNode \<Rightarrow> (HtmlNode, 'p) io" where
  "enumRows env contextApiItem [] enumMembersTable = (Inr enumMembersTable, [])"
| "enumRows env contextApiItem (apiEnumMember # rest) enumMembersTable =
     (case initializerExcerpt apiEnumMember of
        None \<Rightarrow> (Inl (TypeError ''Cannot read property text of undefined''), [])
      | Some initializer \<Rightarrow>
          (case createDescriptionCell env apiEnumMember contextApiItem of
             (Inl err, l) \<Rightarrow> (Inl err, l)
           | (Inr description, l) \<Rightarrow>
               prepend l
                 (enumRows env contextApiItem rest
                    (push_row enumMembersTable
                       (tr [CellStr (getConciseSignature env apiEnumMember),
                            CellStr initializer,
                            CellNode description])))))"

definition writeEnumTables :: "'p Env \<Rightarrow> HtmlEmitter \<Rightarrow> ApiItem \<Rightarrow> Located \<Rightarrow> (HtmlEmitter, 'p) io" where
  "writeEnumTables env output apiEnum contextApiItem =
     (case enumRows env contextApiItem (members apiEnum) (table [''Member'', ''Value'', ''Description'']) of
        (Inl err, l) \<Rightarrow> (Inl err, l)
      | (Inr enumMembersTable, l) \<Rightarrow>
          (Inr (if content_length enumMembersTable > 1
                then appendChild enumMembersTable
                       (appendChild (tag ''h3'' (S ''section-heading'') (S ''Enumeration Members''))
                          output)
                else output),
           l))"

subsection \<open>Pages of containers, classes and interfaces, and the page of an item\<close>

record ContainerTables =
  classesTable :: HtmlNode
  enumerationsTable :: HtmlNode
  functionsTable :: HtmlNode
  interfacesTable :: HtmlNode
  exceptionsTable :: HtmlNode
  namespacesTable :: HtmlNode
  variablesTable :: HtmlNode
  typeAliasesTable :: HtmlNode

record ClassTables =
  c_eventsTable :: HtmlNode
  c_constructorsTable :: HtmlNode
  c_propertiesTable :: HtmlNode
  c_methodsTable :: HtmlNode

record InterfaceTables =
  i_eventsTable :: HtmlNode
  i_propertiesTable :: HtmlNode
  i_methodsTable :: HtmlNode

text \<open>The local function \<open>isError\<close>: some token of the extends clause is a reference \<open>Error\<close>.\<close>

definition isError :: "ApiItem \<Rightarrow> bool" where
  "isError item =
     (case extendsType item of
        Some tokens \<Rightarrow> list_ex (\<lambda>token. fst token = Reference \<and> snd token = ''Error'') tokens
      | None \<Rightarrow> False)"

text \<open>
  The members listed on the page of a package or namespace, with their ancestors: those of
  the first entry point of a package, those of a namespace. A package without an entry
  point makes \<open>entryPoints[0].members\<close> throw.
\<close>

definition apiMembersOf :: "ApiItem list \<Rightarrow> ApiItem \<Rightarrow> (ApiItem list \<times> ApiItem list) option" where
  "apiMembersOf ancestors apiContainer =
     (if kind apiContainer = Package then
        (case members apiContainer of
           [] \<Rightarrow> None
         | entryPoint # others \<Rightarrow> Some (ancestors @ [apiContainer, entryPoint], members entryPoint))
      else Some (ancestors @ [apiContainer], members apiContainer))"

text \<open>The \<open>switch\<close> in the loop of \<open>_writePackageOrNamespaceTables\<close>: the table that gets the row.\<close>

definition pushContainerRow :: "ApiItem \<Rightarrow> HtmlNode \<Rightarrow> ContainerTables \<Rightarrow> ContainerTables option" where
  "pushContainerRow apiMember row t =
     (case kind apiMember of
        Class \<Rightarrow>
          if \<not> isError apiMember then Some (t\<lparr>classesTable := push_row (classesTable t) row\<rparr>)
          else Some (t\<lparr>exceptionsTable := push_row (exceptionsTable t) row\<rparr>)
      | Enum \<Rightarrow> Some (t\<lparr>enumerationsTable := push_row (enumerationsTable t) row\<rparr>)
      | Interface \<Rightarrow> Some (t\<lparr>interfacesTable := push_row (interfacesTable t) row\<rparr>)
      | Namespace \<Rightarrow> Some (t\<lparr>namespacesTable := push_row (namespacesTable t) row\<rparr>)
      | Function \<Rightarrow> Some (t\<lparr>functionsTable := push_row (functionsTable t) row\<rparr>)
      | TypeAlias \<Rightarrow> Some (t\<lparr>typeAliasesTable := push_row (typeAliasesTable t) row\<rparr>)
      | Variable \<Rightarrow> Some (t\<lparr>variablesTable := push_row (variablesTable t) row\<rparr>)
      | _ \<Rightarrow> None)"

definition newContainerTables :: ContainerTables where
  "newContainerTables =
     \<lparr>classesTable = table [''Class'', ''Description''],
      enumerationsTable = table [''Enumeration'', ''Description''],
      functionsTable = table [''Function'', ''Description''],
      interfacesTable = table [''Interface'', ''Description''],
      exceptionsTable = table [''Exception'', ''Description''],
      namespacesTable = table [''Namespace'', ''Description''],
      variablesTable = table [''Variable'', ''Description''],
      typeAliasesTable = table [''Type Alias'', ''Description'']\<rparr>"

text \<open>One heading and table, appended when the table has more than one element in its content.\<close>

definition appendSection :: "string \<Rightarrow> HtmlNode \<Rightarrow> HtmlEmitter \<Rightarrow> HtmlEmitter" where
  "appendSection heading tbl output =
     (if content_length tbl > 1
      then appendChild tbl (appendChild (tag ''h3'' (S ''section-heading'') (S heading)) output)
      else output)"

text \<open>The eight conditional sections at the end of \<open>_writePackageOrNamespaceTables\<close>.\<close>

definition appendContainerSections :: "ContainerTables \<Rightarrow> HtmlEmitter \<Rightarrow> HtmlEmitter" where
  "appendContainerSections t output =
     appendSection ''Exceptions'' (exceptionsTable t)
       (appendSection ''Types'' (typeAliasesTable t)
         (appendSection ''Variables'' (variablesTable t)
           (appendSection ''Namespaces'' (namespacesTable t)
             (appendSection ''Interfaces'' (interfacesTable t)
               (appendSection ''Functions'' (functionsTable t)
                 (appendSection ''Enumerations'' (enumerationsTable t)
                   (appendSection ''Classes'' (classesTable t) output)))))))"

definition newClassTables :: ClassTables where
  "newClassTables =
     \<lparr>c_eventsTable = table [''Property'', ''Modifiers'', ''Type'', ''Description''],
      c_constructorsTable = table [''Constructor'', ''Modifiers'', ''Description''],
      c_propertiesTable = table [''Property'', ''Modifiers'', ''Type'', ''Description''],
      c_methodsTable = table [''Method'', ''Modifiers'', ''Description'']\<rparr>"

definition isEvent :: "ApiItem \<Rightarrow> bool" where
  "isEvent apiMember = (case propertyItem apiMember of Some p \<Rightarrow> isEventProperty p | None \<Rightarrow> False)"

text \<open>The \<open>switch\<close> in the loop of \<open>_writeClassTables\<close>, given the description cell.\<close>

definition pushClassRow ::
  "'p Env \<Rightarrow> ApiItem list \<Rightarrow> ApiItem \<Rightarrow> HtmlNode \<Rightarrow> ClassTables \<Rightarrow> ClassTables" where
  "pushClassRow env ancestors apiMember description t =
     (case kind apiMember of
        Constructor \<Rightarrow>
          t\<lparr>c_constructorsTable := push_row (c_constructorsTable t)
              (tr [CellNode (createTitleCell env ancestors apiMember),
                   CellNode (createModifiersCell apiMember), CellNode description])\<rparr>
      | Method \<Rightarrow>
          t\<lparr>c_methodsTable := push_row (c_methodsTable t)
              (tr [CellNode (createTitleCell env ancestors apiMember),
                   CellNode (createModifiersCell apiMember), CellNode description])\<rparr>
      | Property \<Rightarrow>
          if isEvent apiMember then
            t\<lparr>c_eventsTable := push_row (c_eventsTable t)
                (tr [CellNode (createTitleCell env ancestors apiMember),
                     CellNode (createModifiersCell apiMember),
                     CellNode (createPropertyTypeCell apiMember), CellNode description])\<rparr>
          else
            t\<lparr>c_propertiesTable := push_row (c_propertiesTable t)
                (tr [CellNode (createTitleCell env ancestors apiMember),
                     CellNode (createModifiersCell apiMember),
                     CellNode (createPropertyTypeCell apiMember), CellNode description])\<rparr>
      | _ \<Rightarrow> t)"

definition appendClassSections :: "ClassTables \<Rightarrow> HtmlEmitter \<Rightarrow> HtmlEmitter" where
  "appendClassSections t output =
     appendSection ''Methods'' (c_methodsTable t)
       (appendSection ''Properties'' (c_propertiesTable t)
         (appendSection ''Constructors'' (c_constructorsTable t)
           (appendSection ''Events'' (c_eventsTable t) output)))"

definition newInterfaceTables :: InterfaceTables where
  "newInterfaceTables =
     \<lparr>i_eventsTable = table [''Property'', ''Type'', ''Description''],
      i_propertiesTable = table [''Property'', ''Type'', ''Description''],
      i_methodsTable = table [''Method'', ''Description'']\<rparr>"

definition pushInterfaceRow ::
  "'p Env \<Rightarrow> ApiItem list \<Rightarrow> ApiItem \<Rightarrow> HtmlNode \<Rightarrow> InterfaceTables \<Rightarrow> InterfaceTables" where
  "pushInterfaceRow env ancestors apiMember description t =
     (if kind apiMember = ConstructSignature \<or> kind apiMember = MethodSignature then
        t\<lparr>i_methodsTable := push_row (i_methodsTable t)
            (tr [CellNode (createTitleCell env ancestors apiMember), CellNode description])\<rparr>
      else if kind apiMember = PropertySignature then
        (if isEvent apiMember then
           t\<lparr>i_eventsTable := push_row (i_eventsTable t)
               (tr [CellNode (createTitleCell env ancestors apiMember),
                    CellNode (createPropertyTypeCell apiMember), CellNode description])\<rparr>
         else
           t\<lparr>i_propertiesTable := push_row (i_propertiesTable t)
               (tr [CellNode (createTitleCell env ancestors apiMember),
                    CellNode (createPropertyTypeCell apiMember), CellNode description])\<rparr>)
      else t)"

definition appendInterfaceSections :: "InterfaceTables \<Rightarrow> HtmlEmitter \<Rightarrow> HtmlEmitter" where
  "appendInterfaceSections t output =
     appendSection ''Methods'' (i_methodsTable t)
       (appendSection ''Properties'' (i_propertiesTable t)
         (appendSection ''Events'' (i_eventsTable t) output))"

text \<open>
  The recursion of the generator. \<open>writeApiItemPage\<close> decides the grouping;
  \<open>writeApiItemPageWithSiblings\<close> writes one page; \<open>writeKindTables\<close> is its last
  \<open>apiItems.forEach\<close> with the \<open>switch\<close> on the kind; the \<open>...Members\<close> functions are the
  loops over the members, which write the page of a listed member right after its row.
  \<open>ancestors\<close> are the ancestors of the item (for a members loop: of the members).
\<close>

function
  writeApiItemPage :: "'p Env \<Rightarrow> ApiItem list \<Rightarrow> ApiItem \<Rightarrow> (unit, 'p) io"
and writeApiItemPageWithSiblings :: "'p Env \<Rightarrow> ApiItem list \<Rightarrow> ApiItem list \<Rightarrow> (unit, 'p) io"
and writeKindTables ::
  "'p Env \<Rightarrow> ApiItem list \<Rightarrow> Located \<Rightarrow> ApiItem list \<Rightarrow> HtmlEmitter \<Rightarrow> (HtmlEmitter, 'p) io"
and writeModelTable ::
  "'p Env \<Rightarrow> ApiItem list \<Rightarrow> HtmlEmitter \<Rightarrow> ApiItem \<Rightarrow> Located \<Rightarrow> (HtmlEmitter, 'p) io"
and writeModelMembers ::
  "'p Env \<Rightarrow> ApiItem list \<Rightarrow> Located \<Rightarrow> ApiItem list \<Rightarrow> HtmlNode \<Rightarrow> (HtmlNode, 'p) io"
and writePackageOrNamespaceTables ::
  "'p Env \<Rightarrow> ApiItem list \<Rightarrow> HtmlEmitter \<Rightarrow> ApiItem \<Rightarrow> Located \<Rightarrow> (HtmlEmitter, 'p) io"
and writePackageOrNamespaceMembers ::
  "'p Env \<Rightarrow> ApiItem list \<Rightarrow> Located \<Rightarrow> ApiItem list \<Rightarrow> ContainerTables \<Rightarrow> (ContainerTables, 'p) io"
and writeClassTables ::
  "'p Env \<Rightarrow> ApiItem list \<Rightarrow> HtmlEmitter \<Rightarrow> ApiItem \<Rightarrow> Located \<Rightarrow> (HtmlEmitter, 'p) io"
and writeClassMembers ::
  "'p Env \<Rightarrow> ApiItem list \<Rightarrow> Located \<Rightarrow> ApiItem list \<Rightarrow> ClassTables \<Rightarrow> (ClassTables, 'p) io"
and writeInterfaceTables ::
  "'p Env \<Rightarrow> ApiItem list \<Rightarrow> HtmlEmitter \<Rightarrow> ApiItem \<Rightarrow> Located \<Rightarrow> (HtmlEmitter, 'p) io"
and writeInterfaceMembers ::
  "'p Env \<Rightarrow> ApiItem list \<Rightarrow> Located \<Rightarrow> ApiItem list \<Rightarrow> InterfaceTables \<Rightarrow> (InterfaceTables, 'p) io"
where
  "writeApiItemPage env ancestors apiItem =
     (let siblings = mergedSiblings apiItem;
          interfaces = filter (\<lambda>s. kind s = Interface) siblings;
          namespaces = filter (\<lambda>s. kind s = Namespace) siblings
      in if length interfaces = 1 \<and> length namespaces = 1 \<and> length siblings = 2 then
           (if kind apiItem = Interface
            then writeApiItemPageWithSiblings env ancestors (interfaces @ namespaces)
            else (Inr (), []))
         else writeApiItemPageWithSiblings env ancestors [apiItem])"
| "writeApiItemPageWithSiblings env ancestors apiItems =
     (case apiItems of
        [] \<Rightarrow> (Inl (TypeError ''Cannot read property getHierarchy of undefined''), [])
      | first # others \<Rightarrow>
          (case writePageTop env ancestors apiItems of
             (Inl err, l) \<Rightarrow> (Inl err, l)
           | (Inr output, l) \<Rightarrow>
               (case writeKindTables env ancestors (ancestors, first) apiItems output of
                  (Inl err, l') \<Rightarrow> (Inl err, l @ l')
                | (Inr output', l') \<Rightarrow>
                    prepend (l @ l') (finishPage env ancestors first output'))))"
| "writeKindTables env ancestors contextApiItem [] output = (Inr output, [])"
| "writeKindTables env ancestors contextApiItem (apiItem # rest) output =
     (case (case kind apiItem of
              Class \<Rightarrow> writeClassTables env ancestors output apiItem contextApiItem
            | Enum \<Rightarrow> writeEnumTables env output apiItem contextApiItem
            | Interface \<Rightarrow> writeInterfaceTables env ancestors output apiItem contextApiItem
            | Constructor \<Rightarrow>
                (case writeParameterTables env output apiItem contextApiItem of
                   (Inl err, l) \<Rightarrow> (Inl err, l)
                 | (Inr output', l) \<Rightarrow> prepend l (writeThrowsSection env output' apiItem contextApiItem))
            | ConstructSignature \<Rightarrow>
                (case writeParameterTables env output apiItem contextApiItem of
                   (Inl err, l) \<Rightarrow> (Inl err, l)
                 | (Inr output', l) \<Rightarrow> prepend l (writeThrowsSection env output' apiItem contextApiItem))
            | Method \<Rightarrow>
                (case writeParameterTables env output apiItem contextApiItem of
                   (Inl err, l) \<Rightarrow> (Inl err, l)
                 | (Inr output', l) \<Rightarrow> prepend l (writeThrowsSection env output' apiItem contextApiItem))
            | MethodSignature \<Rightarrow>
                (case writeParameterTables env output apiItem contextApiItem of
                   (Inl err, l) \<Rightarrow> (Inl err, l)
                 | (Inr output', l) \<Rightarrow> prepend l (writeThrowsSection env output' apiItem contextApiItem))
            | Function \<Rightarrow>
                (case writeParameterTables env output apiItem contextApiItem of
                   (Inl err, l) \<Rightarrow> (Inl err, l)
                 | (Inr output', l) \<Rightarrow> prepend l (writeThrowsSection env output' apiItem contextApiItem))
            | Namespace \<Rightarrow> writePackageOrNamespaceTables env ancestors output apiItem contextApiItem
            | Model \<Rightarrow> writeModelTable env ancestors output apiItem contextApiItem
            | Package \<Rightarrow> writePackageOrNamespaceTables env ancestors output apiItem contextApiItem
            | Property \<Rightarrow> (Inr output, [])
            | PropertySignature \<Rightarrow> (Inr output, [])
            | TypeAlias \<Rightarrow> (Inr output, [])
            | Variable \<Rightarrow> (Inr output, [])
            | _ \<Rightarrow> (Inl (Error (''Unsupported API item kind: '' @ kind_text (kind apiItem))), [])) of
        (Inl err, l) \<Rightarrow> (Inl err, l)
      | (Inr output', l) \<Rightarrow> prepend l (writeKindTables env ancestors contextApiItem rest output'))"
| "writeModelTable env ancestors output apiModel' contextApiItem =
     (case writeModelMembers env (ancestors @ [apiModel']) contextApiItem (members apiModel')
             (table [''Package'', ''Description'']) of
        (Inl err, l) \<Rightarrow> (Inl err, l)
      | (Inr packagesTable, l) \<Rightarrow>
          (Inr (if content_length packagesTable > 0
                then appendChild packagesTable
                       (appendChild (tag ''h3'' (S ''section-heading'') (S ''Packages'')) output)
                else output),
           l))"
| "writeModelMembers env ancestors contextApiItem [] packagesTable = (Inr packagesTable, [])"
| "writeModelMembers env ancestors contextApiItem (apiMember # rest) packagesTable =
     (case createDescriptionCell env apiMember contextApiItem of
        (Inl err, l) \<Rightarrow> (Inl err, l)
      | (Inr description, l) \<Rightarrow>
          (if kind apiMember = Package then
             prepend l
               (then_io (writeApiItemPage env ancestors apiMember)
                  (writeModelMembers env ancestors contextApiItem rest
                     (push_row packagesTable
                        (tr [CellNode (createTitleCell env ancestors apiMember), CellNode description]))))
           else prepend l (writeModelMembers env ancestors contextApiItem rest packagesTable)))"
| "writePackageOrNamespaceTables env ancestors output apiContainer contextApiItem =
     (case apiMembersOf ancestors apiContainer of
        None \<Rightarrow> (Inl (TypeError ''Cannot read property members of undefined''), [])
      | Some (ancestors', apiMembers) \<Rightarrow>
          (case writePackageOrNamespaceMembers env ancestors' contextApiItem apiMembers
                  newContainerTables of
             (Inl err, l) \<Rightarrow> (Inl err, l)
           | (Inr t, l) \<Rightarrow> (Inr (appendContainerSections t output), l)))"
| "writePackageOrNamespaceMembers env ancestors contextApiItem [] t = (Inr t, [])"
| "writePackageOrNamespaceMembers env ancestors contextApiItem (apiMember # rest) t =
     (case createDescriptionCell env apiMember contextApiItem of
        (Inl err, l) \<Rightarrow> (Inl err, l)
      | (Inr description, l) \<Rightarrow>
          (case pushContainerRow apiMember
                  (tr [CellNode (createTitleCell env ancestors apiMember), CellNode description]) t of
             Some t' \<Rightarrow>
               prepend l
                 (then_io (writeApiItemPage env ancestors apiMember)
                    (writePackageOrNamespaceMembers env ancestors contextApiItem rest t'))
           | None \<Rightarrow> prepend l (writePackageOrNamespaceMembers env ancestors contextApiItem rest t)))"
| "writeClassTables env ancestors output apiClass contextApiItem =
     (case writeClassMembers env (ancestors @ [apiClass]) contextApiItem (members apiClass)
             newClassTables of
        (Inl err, l) \<Rightarrow> (Inl err, l)
      | (Inr t, l) \<Rightarrow> (Inr (appendClassSections t output), l))"
| "writeClassMembers env ancestors contextApiItem [] t = (Inr t, [])"
| "writeClassMembers env ancestors contextApiItem (apiMember # rest) t =
     (if kind apiMember = Constructor \<or> kind apiMember = Method \<or> kind apiMember = Property then
        (case createDescriptionCell env apiMember contextApiItem of
           (Inl err, l) \<Rightarrow> (Inl err, l)
         | (Inr description, l) \<Rightarrow>
             prepend l
               (then_io (writeApiItemPage env ancestors apiMember)
                  (writeClassMembers env ancestors contextApiItem rest
                     (pushClassRow env ancestors apiMember description t))))
      else writeClassMembers env ancestors contextApiItem rest t)"
| "writeInterfaceTables env ancestors output apiClass contextApiItem =
     (case writeInterfaceMembers env (ancestors @ [apiClass]) contextApiItem (members apiClass)
             newInterfaceTables of
        (Inl err, l) \<Rightarrow> (Inl err, l)
      | (Inr t, l) \<Rightarrow> (Inr (appendInterfaceSections t output), l))"
| "writeInterfaceMembers env ancestors contextApiItem [] t = (Inr t, [])"
| "writeInterfaceMembers env ancestors contextApiItem (apiMember # rest) t =
     (if kind apiMember = ConstructSignature \<or> kind apiMember = MethodSignature
         \<or> kind apiMember = PropertySignature then
        (case createDescriptionCell env apiMember contextApiItem of
           (Inl err, l) \<Rightarrow> (Inl err, l)
         | (Inr description, l) \<Rightarrow>
             prepend l
               (then_io (writeApiItemPage env ancestors apiMember)
                  (writeInterfaceMembers env ancestors contextApiItem rest
                     (pushInterfaceRow env ancestors apiMember description t))))
      else writeInterfaceMembers env ancestors contextApiItem rest t)"
  by pat_completeness auto
termination
proof -
  let ?S = "size_list (size :: ApiItem \<Rightarrow> nat)"
  have sz_members: "?S (members x) < size x" for x
    by (cases x) simp
  have sz_siblings: "?S (mergedSiblings x) < size x" for x
    by (cases x) simp
  have sz_filter2:
    "?S (filter (\<lambda>s. kind s = Interface) xs) + ?S (filter (\<lambda>s. kind s = Namespace) xs) \<le> ?S xs" for xs
    by (induction xs) auto
  have sz_merged:
    "?S (filter (\<lambda>s. kind s = Interface) (mergedSiblings x)
         @ filter (\<lambda>s. kind s = Namespace) (mergedSiblings x)) < size x" for x
    using sz_filter2[of "mergedSiblings x"] sz_siblings[of x] by (simp add: size_list_append)
  have sz_apiMembersOf: "?S ms < size c"
    if a: "apiMembersOf ancestors c = Some (anc', ms)" for ancestors c anc' ms
  proof (cases "kind c = Package")
    case False
    then have "ms = members c" using a by (simp add: apiMembersOf_def)
    then show ?thesis by (simp add: sz_members)
  next
    case True
    then obtain ep others where m: "members c = ep # others" "ms = members ep"
      using a by (auto simp: apiMembersOf_def split: list.splits)
    have "?S ms < size ep" using m by (simp add: sz_members)
    also have "size ep < ?S (members c)" using m by simp
    also have "\<dots> < size c" by (rule sz_members)
    finally show ?thesis .
  qed
  let ?page = "\<lambda>(env :: 'a Env, ancestors :: ApiItem list, apiItem). 5 * (size apiItem + 1) + 3"
  let ?withSiblings = "\<lambda>(env :: 'a Env, ancestors :: ApiItem list, apiItems). 5 * ?S apiItems + 2"
  let ?kindTables = "\<lambda>(env :: 'a Env, ancestors :: ApiItem list, c :: Located, apiItems, output :: HtmlEmitter).
        5 * ?S apiItems + 1"
  let ?tables = "\<lambda>(env :: 'a Env, ancestors :: ApiItem list, output :: HtmlEmitter, apiItem, c :: Located).
        5 * (size apiItem + 1)"
  let ?modelMembers = "\<lambda>(env :: 'a Env, ancestors :: ApiItem list, c :: Located, ms, t :: HtmlNode). 5 * ?S ms + 4"
  let ?containerMembers = "\<lambda>(env :: 'a Env, ancestors :: ApiItem list, c :: Located, ms, t :: ContainerTables). 5 * ?S ms + 4"
  let ?classMembers = "\<lambda>(env :: 'a Env, ancestors :: ApiItem list, c :: Located, ms, t :: ClassTables). 5 * ?S ms + 4"
  let ?interfaceMembers = "\<lambda>(env :: 'a Env, ancestors :: ApiItem list, c :: Located, ms, t :: InterfaceTables). 5 * ?S ms + 4"
  let ?m = "case_sum
      (case_sum (case_sum ?page ?withSiblings)
                (case_sum ?kindTables (case_sum ?tables ?modelMembers)))
      (case_sum (case_sum ?tables (case_sum ?containerMembers ?tables))
                (case_sum ?classMembers (case_sum ?tables ?interfaceMembers)))"
  have m5: "5 * ?S (members x) < Suc (5 * size x)" for x
    using sz_members[of x] by simp
  have s5: "5 * ?S (filter (\<lambda>s. kind s = Interface) (mergedSiblings x))
            + 5 * ?S (filter (\<lambda>s. kind s = Namespace) (mergedSiblings x)) < 6 + 5 * size x" for x
    using sz_filter2[of "mergedSiblings x"] sz_siblings[of x] by simp
  have a5: "5 * ?S ms < Suc (5 * size c)"
    if "apiMembersOf ancestors c = Some (anc', ms)" for ancestors c anc' ms
    using sz_apiMembersOf[OF that] by simp
  show ?thesis
    apply (relation "measure ?m")
    apply (simp_all add: m5 s5)
    apply (metis a5)
    done
qed

declare writeApiItemPage.simps [simp del]
declare writeApiItemPageWithSiblings.simps [simp del]
declare writeKindTables.simps [simp del]
declare writeModelTable.simps [simp del]
declare writePackageOrNamespaceTables.simps [simp del]
declare writeClassTables.simps [simp del]
declare writeInterfaceTables.simps [simp del]

section \<open>Instances for the concrete examples\<close>

text \<open>
  An item with a kind and a name and nothing else, and an environment in which names
  need no encoding, a package name has no scope, the concise signature is the display
  name, no reference resolves, and the serializer returns the element list it is given.
\<close>

definition bareItem :: "ApiItemKind \<Rightarrow> string \<Rightarrow> ApiItem" where
  "bareItem k nm = ApiItem k nm nm [] [] None None None None None None None None None"

definition example_env :: "(HtmlNode list) Env" where
  "example_env =
     \<lparr>getSafeFilenameForName = (\<lambda>nm. nm),
      getConciseSignature = displayName,
      getUnscopedName = (\<lambda>nm. nm),
      resolveDeclarationReference =
        (\<lambda>reference contextApiItem. \<lparr>resolvedApiItem = None, errorMessage = Some ''not found''\<rparr>),
      renderHTML = (\<lambda>elements. elements),
      pathJoin = (\<lambda>folder file. folder @ ''/'' @ file),
      apiModel = bareItem Model [],
      outputFolder = ''out''\<rparr>"

text \<open>The names of the files written by a run, in order.\<close>

fun writtenFiles :: "'p Effect list \<Rightarrow> string list" where
  "writtenFiles [] = []"
| "writtenFiles (Log line # effects) = writtenFiles effects"
| "writtenFiles (WriteFile file page # effects) = file # writtenFiles effects"

text \<open>
  A package \<open>pkg\<close> whose entry point declares a class \<open>Foo\<close> and a namespace \<open>Foo\<close>
  (merged declarations, each the merged sibling of the other).
\<close>

definition fooClass :: ApiItem where
  "fooClass = ApiItem Class ''Foo'' ''Foo'' [bareItem Class ''Foo'', bareItem Namespace ''Foo''] []
                None None None None None None None None None"

definition fooNamespace :: ApiItem where
  "fooNamespace = ApiItem Namespace ''Foo'' ''Foo'' [bareItem Class ''Foo'', bareItem Namespace ''Foo''] []
                    None None None None None None None None None"

definition fooEntryPoint :: ApiItem where
  "fooEntryPoint = ApiItem EntryPoint [] [] [] [fooClass, fooNamespace]
                     None None None None None None None None None"

definition fooPackage :: ApiItem where
  "fooPackage = ApiItem Package ''pkg'' ''pkg'' [] [fooEntryPoint]
                  None None None None None None None None None"

text \<open>The model root, and the ancestors of the items declared in the entry point of a package.\<close>

definition exModel :: ApiItem where
  "exModel = bareItem Model []"

text \<open>A function without a doc comment, and the same function with an empty doc comment.\<close>

definition plainFunction :: ApiItem where
  "plainFunction = ApiItem Function ''f'' ''f'' [] [] None None None None None
                     (Some \<lparr>overloadIndex = 1, parameters = []\<rparr>) None None None"

definition documentedFunction :: ApiItem where
  "documentedFunction = ApiItem Function ''f'' ''f'' [] []
                          (Some \<lparr>summarySection = [], remarksBlock = None, returnsBlock = None,
                                  customBlocks = []\<rparr>)
                          None None None None
                          (Some \<lparr>overloadIndex = 1, parameters = []\<rparr>) None None None"

text \<open>The second overload of a method \<open>m\<close>.\<close>

definition secondOverload :: ApiItem where
  "secondOverload = ApiItem Method ''m'' ''m'' [] [] None None None None None
                      (Some \<lparr>overloadIndex = 2, parameters = []\<rparr>) None None None"

text \<open>
  A package \<open>pkg\<close> whose entry point declares an interface \<open>Bar\<close> and a namespace \<open>Bar\<close>,
  each with these two as merged siblings.
\<close>

definition barInterface :: ApiItem where
  "barInterface = ApiItem Interface ''Bar'' ''Bar'' [bareItem Interface ''Bar'', bareItem Namespace ''Bar''] []
                    None None None None None None None None None"

definition barNamespace :: ApiItem where
  "barNamespace = ApiItem Namespace ''Bar'' ''Bar'' [bareItem Interface ''Bar'', bareItem Namespace ''Bar''] []
                    None None None None None None None None None"

definition barEntryPoint :: ApiItem where
  "barEntryPoint = ApiItem EntryPoint [] [] [] [barInterface, barNamespace]
                     None None None None None None None None None"

definition barPackage :: ApiItem where
  "barPackage = ApiItem Package ''pkg'' ''pkg'' [] [barEntryPoint]
                  None None None None None None None None None"

text \<open>A summary with a link to \<open>Foo\<close>, which the example environment does not resolve, and a variable with this summary.\<close>

definition linkSummary :: "DocNode list" where
  "linkSummary = [DocParagraph [DocPlainText ''see '', DocLinkTag None None (Some ''Foo'')]]"

definition linkingVariable :: ApiItem where
  "linkingVariable = ApiItem Variable ''v'' ''v'' [] []
                       (Some \<lparr>summarySection = linkSummary, remarksBlock = None, returnsBlock = None,
                               customBlocks = []\<rparr>)
                       None None None None None None None None"

text \<open>Two parameters, of which only the first has a doc block.\<close>

definition exParameters :: "Parameter list" where
  "exParameters =
     [\<lparr>parameterName = ''a'', parameterTypeExcerpt = ''string'',
       tsdocParamBlock = Some [DocPlainText ''first'']\<rparr>,
      \<lparr>parameterName = ''b'', parameterTypeExcerpt = ''number'', tsdocParamBlock = None\<rparr>]"

text \<open>A function \<open>g\<close> with these parameters and an otherwise empty doc comment.\<close>

definition twoParameterFunction :: ApiItem where
  "twoParameterFunction = ApiItem Function ''g'' ''g'' [] []
                            (Some \<lparr>summarySection = [], remarksBlock = None, returnsBlock = None,
                                    customBlocks = []\<rparr>)
                            None None None None
                            (Some \<lparr>overloadIndex = 1, parameters = exParameters\<rparr>) None None None"

section \<open>Notions used to state the claims\<close>

text \<open>
  A link tag without a usable URL whose code destination the model does not resolve, the
  failure being reported with an error message.
\<close>

fun unresolved :: "'p Env \<Rightarrow> Located \<Rightarrow> DocNode \<Rightarrow> bool" where
  "unresolved env contextApiItem (DocLinkTag linkText urlDestination (Some reference)) =
     (truthy_string urlDestination = None
      \<and> resolvedApiItem (resolveDeclarationReference env reference contextApiItem) = None
      \<and> truthy_string (errorMessage (resolveDeclarationReference env reference contextApiItem)) \<noteq> None)"
| "unresolved env contextApiItem node = False"

text \<open>A doc comment without its unresolved links, at every depth.\<close>

fun pruneNodes :: "'p Env \<Rightarrow> Located \<Rightarrow> DocNode list \<Rightarrow> DocNode list"
and pruneNode :: "'p Env \<Rightarrow> Located \<Rightarrow> DocNode \<Rightarrow> DocNode" where
  "pruneNodes env contextApiItem [] = []"
| "pruneNodes env contextApiItem (node # nodes) =
     (if unresolved env contextApiItem node then pruneNodes env contextApiItem nodes
      else pruneNode env contextApiItem node # pruneNodes env contextApiItem nodes)"
| "pruneNode env contextApiItem (DocParagraph nodes) = DocParagraph (pruneNodes env contextApiItem nodes)"
| "pruneNode env contextApiItem (DocBlock nodes) = DocBlock (pruneNodes env contextApiItem nodes)"
| "pruneNode env contextApiItem node = node"

text \<open>The number of unresolved links of a doc comment, at every depth.\<close>

fun countUnresolved :: "'p Env \<Rightarrow> Located \<Rightarrow> DocNode list \<Rightarrow> nat"
and countUnresolvedIn :: "'p Env \<Rightarrow> Located \<Rightarrow> DocNode \<Rightarrow> nat" where
  "countUnresolved env contextApiItem [] = 0"
| "countUnresolved env contextApiItem (node # nodes) =
     countUnresolvedIn env contextApiItem node + countUnresolved env contextApiItem nodes"
| "countUnresolvedIn env contextApiItem (DocParagraph nodes) = countUnresolved env contextApiItem nodes"
| "countUnresolvedIn env contextApiItem (DocBlock nodes) = countUnresolved env contextApiItem nodes"
| "countUnresolvedIn env contextApiItem node = (if unresolved env contextApiItem node then 1 else 0)"

text \<open>
  The doc block of the last parameter of a list that has one, and the nodes a doc block
  translates to (when the translation does not throw).
\<close>

fun lastDocBlock :: "Parameter list \<Rightarrow> DocNode list option" where
  "lastDocBlock [] = None"
| "lastDocBlock (p # ps) =
     (case lastDocBlock ps of Some nodes \<Rightarrow> Some nodes | None \<Rightarrow> tsdocParamBlock p)"

definition translation :: "'p Env \<Rightarrow> Located \<Rightarrow> DocNode list \<Rightarrow> HtmlNode list" where
  "translation env contextApiItem nodes =
     (case fst (createDocNodes env contextApiItem nodes) of Inr ns \<Rightarrow> ns | Inl err \<Rightarrow> [])"

text \<open>
  The description cell of the row of parameter \<open>i\<close>: the first translated node of the doc
  block of the most recent parameter, up to \<open>i\<close>, that has one; the empty string when
  there is none.
\<close>

definition descriptionCell :: "'p Env \<Rightarrow> Located \<Rightarrow> Parameter list \<Rightarrow> nat \<Rightarrow> Cell" where
  "descriptionCell env contextApiItem ps i =
     (case lastDocBlock (take (Suc i) ps) of
        None \<Rightarrow> CellStr []
      | Some nodes \<Rightarrow> CellNode (first_node (translation env contextApiItem nodes)))"

text \<open>The row of parameter \<open>i\<close> when the description before the loop is \<open>d\<close>.\<close>

definition row_with :: "'p Env \<Rightarrow> Located \<Rightarrow> Cell \<Rightarrow> Parameter list \<Rightarrow> nat \<Rightarrow> HtmlNode" where
  "row_with env contextApiItem d ps i =
     tr [CellStr (parameterName (ps ! i)), CellStr (parameterTypeExcerpt (ps ! i)),
         (case lastDocBlock (take (Suc i) ps) of
            None \<Rightarrow> d
          | Some nodes \<Rightarrow> CellNode (first_node (translation env contextApiItem nodes)))]"

text \<open>The heading and table of a section: what \<open>appendSection\<close> appends.\<close>

definition sectionNodes :: "string \<Rightarrow> HtmlNode \<Rightarrow> HtmlNode list" where
  "sectionNodes heading tbl =
     (if content_length tbl > 1 then [tag ''h3'' (S ''section-heading'') (S heading), tbl] else [])"

text \<open>
  The member categories of a package or namespace page, by the heading of their section
  and in the order of the sections; the category of a member; the table of a category;
  the number of members of a category.
\<close>

definition categoryHeadings :: "string list" where
  "categoryHeadings =
     [''Classes'', ''Enumerations'', ''Functions'', ''Interfaces'', ''Namespaces'', ''Variables'',
      ''Types'', ''Exceptions'']"

definition category :: "ApiItem \<Rightarrow> string option" where
  "category apiMember =
     (case kind apiMember of
        Class \<Rightarrow> Some (if isError apiMember then ''Exceptions'' else ''Classes'')
      | Enum \<Rightarrow> Some ''Enumerations''
      | Interface \<Rightarrow> Some ''Interfaces''
      | Namespace \<Rightarrow> Some ''Namespaces''
      | Function \<Rightarrow> Some ''Functions''
      | TypeAlias \<Rightarrow> Some ''Types''
      | Variable \<Rightarrow> Some ''Variables''
      | _ \<Rightarrow> None)"

definition categoryTable :: "string \<Rightarrow> ContainerTables \<Rightarrow> HtmlNode" where
  "categoryTable heading t =
     (if heading = ''Classes'' then classesTable t
      else if heading = ''Enumerations'' then enumerationsTable t
      else if heading = ''Functions'' then functionsTable t
      else if heading = ''Interfaces'' then interfacesTable t
      else if heading = ''Namespaces'' then namespacesTable t
      else if heading = ''Variables'' then variablesTable t
      else if heading = ''Types'' then typeAliasesTable t
      else exceptionsTable t)"

definition memberRows :: "string \<Rightarrow> ApiItem list \<Rightarrow> nat" where
  "memberRows heading apiMembers = length (filter (\<lambda>m. category m = Some heading) apiMembers)"

definition listedMembers :: "ApiItem list \<Rightarrow> ApiItem \<Rightarrow> ApiItem list" where
  "listedMembers ancestors apiContainer =
     (case apiMembersOf ancestors apiContainer of Some (ancestors', apiMembers) \<Rightarrow> apiMembers | None \<Rightarrow> [])"

text \<open>The builder of a page when its main container has just been opened.\<close>

definition pageStart :: HtmlEmitter where
  "pageStart = openNode mainContainer (appendChild siteHeader (addStyle ''styles.css'' (new_HtmlEmitter ''body'')))"

text \<open>The serialized page whose main container holds the nodes \<open>ns\<close>.\<close>

definition pageOf :: "'p Env \<Rightarrow> HtmlNode list \<Rightarrow> 'p" where
  "pageOf env ns =
     renderHTML env
       [headElement [''styles.css''],
        BlockHtmlNode ''body'' None
          [siteHeader, BlockHtmlNode ''div'' (Some [(''class'', ''main'')]) ns]]"


definition callableKinds :: "ApiItemKind set" where
  "callableKinds = {Constructor, ConstructSignature, Method, MethodSignature, Function}"

section \<open>Properties of the builder\<close>

lemma length_push_content [simp]: "length (push_content p c h) = length h"
  by (simp add: push_content_def)

lemma nth_push_content_other [simp]: "i \<noteq> p \<Longrightarrow> push_content p c h ! i = h ! i"
  by (simp add: push_content_def)

lemma ocontent_push_content_same [simp]:
  "p < length h \<Longrightarrow> ocontent (push_content p c h ! p) = ocontent (h ! p) @ [c]"
  by (simp add: push_content_def)

lemma otype_push_content [simp]: "otype (push_content p c h ! i) = otype (h ! i)"
  by (cases "i = p"; cases "p < length h") (simp_all add: push_content_def list_update_beyond)

lemma oattributes_push_content [simp]: "oattributes (push_content p c h ! i) = oattributes (h ! i)"
  by (cases "i = p"; cases "p < length h") (simp_all add: push_content_def list_update_beyond)

lemma heap_ok_push_Val:
  assumes ok: "heap_ok h" shows "heap_ok (push_content p (Val n) h)"
  unfolding heap_ok_def
proof (intro allI impI)
  fix i q
  assume i: "i < length (push_content p (Val n) h)"
    and r: "Ref q \<in> set (ocontent (push_content p (Val n) h ! i))"
  have il: "i < length h" using i by simp
  have "Ref q \<in> set (ocontent (h ! i))"
  proof (cases "i = p")
    case True then show ?thesis using r il by simp
  next
    case False then show ?thesis using r by simp
  qed
  then have "i < q \<and> q < length h" using ok il unfolding heap_ok_def by blast
  then show "i < q \<and> q < length (push_content p (Val n) h)" by simp
qed


lemma run_append:
  "run (xs @ ys) e = (case run xs e of (Inl err, e') \<Rightarrow> (Inl err, e') | (Inr u, e') \<Rightarrow> run ys e')"
  by (induction xs arbitrary: e) (auto split: prod.splits sum.splits)

lemma nodeAt_unfold:
  "p < length h \<Longrightarrow>
   nodeAt h p = BlockHtmlNode (otype (h ! p)) (oattributes (h ! p)) (map (read_child h p) (ocontent (h ! p)))"
  by (subst nodeAt.simps) (simp add: read_child_def[abs_def])

lemma nodeAt_frame:
  assumes "heap_ok h" "length h \<le> length h'" "\<forall>i. p \<le> i \<and> i < length h \<longrightarrow> h' ! i = h ! i"
    "p < length h"
  shows "nodeAt h' p = nodeAt h p"
  using assms
proof (induction h p rule: nodeAt.induct)
  case (1 h p)
  have eq: "h' ! p = h ! p" using "1.prems"(3,4) by simp
  have step: "read_child h' p c = read_child h p c"
    if c: "c \<in> set (ocontent (h ! p))" for c
  proof (cases c)
    case (Val n) then show ?thesis by (simp add: read_child_def)
  next
    case (Ref q)
    have pq: "p < q" and ql: "q < length h"
      using c Ref "1.prems"(1,4) unfolding heap_ok_def by blast+
    have fr: "\<forall>i. q \<le> i \<and> i < length h \<longrightarrow> h' ! i = h ! i"
      using "1.prems"(3) pq by simp
    have "nodeAt h' q = nodeAt h q"
      by (rule "1.IH"[OF "1.prems"(4) c Ref pq "1.prems"(1) "1.prems"(2) fr ql])
    then show ?thesis using Ref by (simp add: read_child_def)
  qed
  have m: "map (read_child h' p) (ocontent (h ! p)) = map (read_child h p) (ocontent (h ! p))"
    by (rule map_cong[OF refl]) (rule step)
  have lt: "p < length h'" using "1.prems" by simp
  show ?case
    by (simp only: nodeAt_unfold[OF lt] nodeAt_unfold[OF "1.prems"(4)] eq m)
qed

lemma children_frame:
  assumes ok: "heap_ok h" and len: "length h \<le> length h'"
    and fr: "\<forall>i. p < i \<and> i < length h \<longrightarrow> h' ! i = h ! i"
    and p: "p < length h"
  shows "map (read_child h' p) (ocontent (h ! p)) = map (read_child h p) (ocontent (h ! p))"
proof (rule map_cong[OF refl])
  fix c assume c: "c \<in> set (ocontent (h ! p))"
  show "read_child h' p c = read_child h p c"
  proof (cases c)
    case (Val n) then show ?thesis by (simp add: read_child_def)
  next
    case (Ref q)
    have pq: "p < q" and ql: "q < length h" using ok p c Ref unfolding heap_ok_def by blast+
    have "\<forall>i. q \<le> i \<and> i < length h \<longrightarrow> h' ! i = h ! i" using fr pq by simp
    from nodeAt_frame[OF ok len this ql] show ?thesis using Ref by (simp add: read_child_def)
  qed
qed

lemma appended_appendChild:
  assumes inv: "emitter_inv e"
  shows "appended e (appendChild n e) [n]"
proof -
  let ?h = "heap e" and ?c = "current e"
  let ?h' = "push_content ?c (Val n) ?h"
  have c: "?c < length ?h" and ok: "heap_ok ?h" using inv by (auto simp: emitter_inv_def)
  have inv': "emitter_inv (appendChild n e)"
    using inv heap_ok_push_Val[OF ok] by (simp add: emitter_inv_def appendChild_def)
  have kids: "map (read_child ?h' ?c) (ocontent (?h ! ?c)) = map (read_child ?h ?c) (ocontent (?h ! ?c))"
    by (rule children_frame[OF ok _ _ c]) simp_all
  have "nodeAt ?h' ?c = add_children (nodeAt ?h ?c) [n]"
    using c by (simp add: nodeAt_unfold kids read_child_def)
  then show ?thesis
    using inv' by (simp add: appended_def grown_def appendChild_def)
qed

lemma appended_refl: "emitter_inv e \<Longrightarrow> appended e e []"
  by (simp add: appended_def grown_def emitter_inv_def nodeAt_unfold)

lemma add_children_append: "add_children (add_children x ns) ms = add_children x (ns @ ms)"
  by (cases x) simp_all

lemma grown_trans:
  assumes g1: "grown e e' ns" and g2: "grown e' e'' ms" and cur: "current e' = current e"
  shows "grown e e'' (ns @ ms)"
proof -
  have 1: "length (heap e) \<le> length (heap e'')"
    using g1 g2 unfolding grown_def by simp
  have 2: "\<forall>p < length (heap e). p \<noteq> current e \<longrightarrow> heap e'' ! p = heap e ! p"
  proof (intro allI impI)
    fix p assume p: "p < length (heap e)" "p \<noteq> current e"
    have "heap e' ! p = heap e ! p" using g1 p unfolding grown_def by simp
    moreover have "heap e'' ! p = heap e' ! p" using g1 g2 p cur unfolding grown_def by simp
    ultimately show "heap e'' ! p = heap e ! p" by simp
  qed
  have "nodeAt (heap e'') (current e) = add_children (nodeAt (heap e') (current e)) ms"
    using g2 cur unfolding grown_def by simp
  also have "nodeAt (heap e') (current e) = add_children (nodeAt (heap e) (current e)) ns"
    using g1 unfolding grown_def by simp
  finally have 3: "nodeAt (heap e'') (current e) = add_children (nodeAt (heap e) (current e)) (ns @ ms)"
    by (simp add: add_children_append)
  show ?thesis unfolding grown_def by (intro conjI 1 2 3)
qed

lemma appended_trans:
  assumes a1: "appended e e' ns" and a2: "appended e' e'' ms"
  shows "appended e e'' (ns @ ms)"
proof -
  have cur: "current e' = current e" using a1 by (simp add: appended_def)
  have "grown e e'' (ns @ ms)"
    using a1 a2 grown_trans[OF _ _ cur] by (simp add: appended_def)
  then show ?thesis using a1 a2 by (simp add: appended_def)
qed

lemma heap_openNode:
  "heap (openNode n e) = push_content (current e) (Ref (length (heap e))) (heap e)
      @ [\<lparr>otype = node_type n, oattributes = node_attributes n, ocontent = map Val (node_children n)\<rparr>]"
  "current (openNode n e) = length (heap e)"
  "root_stack (openNode n e) = root_stack e @ [length (heap e)]"
  "styles (openNode n e) = styles e"
  by (simp_all add: openNode_def Let_def)

lemma nth_heap_openNode_old:
  "i < length (heap e) \<Longrightarrow> i \<noteq> current e \<Longrightarrow> heap (openNode n e) ! i = heap e ! i"
  by (simp add: heap_openNode nth_append)

lemma nth_heap_openNode_new:
  "heap (openNode n e) ! length (heap e)
     = \<lparr>otype = node_type n, oattributes = node_attributes n, ocontent = map Val (node_children n)\<rparr>"
  by (simp add: heap_openNode nth_append)

lemma nth_heap_openNode_current:
  "current e < length (heap e) \<Longrightarrow>
   ocontent (heap (openNode n e) ! current e) = ocontent (heap e ! current e) @ [Ref (length (heap e))]
   \<and> otype (heap (openNode n e) ! current e) = otype (heap e ! current e)
   \<and> oattributes (heap (openNode n e) ! current e) = oattributes (heap e ! current e)"
  by (simp add: heap_openNode nth_append)

lemma inv_openNode:
  assumes inv: "emitter_inv e"
  shows "emitter_inv (openNode n e)"
proof -
  let ?h = "heap e" and ?c = "current e" and ?e1 = "openNode n e"
  have c: "?c < length ?h" and ok: "heap_ok ?h" and st: "root_stack e \<noteq> []"
    and bound: "\<forall>p \<in> set (root_stack e). p < length ?h"
    using inv by (auto simp: emitter_inv_def)
  have len: "length (heap ?e1) = Suc (length ?h)" by (simp add: heap_openNode)
  have ok1: "heap_ok (heap ?e1)"
    unfolding heap_ok_def
  proof (intro allI impI)
    fix i q
    assume i: "i < length (heap ?e1)" and r: "Ref q \<in> set (ocontent (heap ?e1 ! i))"
    consider "i = length ?h" | "i = ?c" | "i < length ?h" "i \<noteq> ?c"
      using i len by linarith
    then show "i < q \<and> q < length (heap ?e1)"
    proof cases
      case 1
      then have False using r by (auto simp: nth_heap_openNode_new)
      then show ?thesis ..
    next
      case 2
      then have "Ref q \<in> set (ocontent (?h ! ?c)) \<or> q = length ?h"
        using r nth_heap_openNode_current[OF c, of n] by auto
      then show ?thesis
      proof
        assume "Ref q \<in> set (ocontent (?h ! ?c))"
        then have "?c < q \<and> q < length ?h" using ok c unfolding heap_ok_def by blast
        then show ?thesis using 2 len by simp
      next
        assume "q = length ?h" then show ?thesis using 2 c len by simp
      qed
    next
      case 3
      then have "Ref q \<in> set (ocontent (?h ! i))" using r by (simp add: nth_heap_openNode_old)
      then have "i < q \<and> q < length ?h" using ok 3 unfolding heap_ok_def by blast
      then show ?thesis using len by simp
    qed
  qed
  show ?thesis
    unfolding emitter_inv_def
    using ok1 bound len by (auto simp: heap_openNode less_Suc_eq)
qed

lemma nodeAt_opened:
  "nodeAt (heap (openNode n e)) (length (heap e))
     = BlockHtmlNode (node_type n) (node_attributes n) (node_children n)"
proof -
  have "length (heap e) < length (heap (openNode n e))" by (simp add: heap_openNode)
  then show ?thesis
    by (simp add: nodeAt_unfold nth_heap_openNode_new read_child_def[abs_def] comp_def)
qed

lemma opened_tree:
  assumes inv: "emitter_inv e" and app: "grown (openNode n e) e2 ms"
  shows "nodeAt (heap e2) (current e)
           = add_children (nodeAt (heap e) (current e))
               [BlockHtmlNode (node_type n) (node_attributes n) (node_children n @ ms)]"
    and "\<forall>p < length (heap e). p \<noteq> current e \<longrightarrow> heap e2 ! p = heap e ! p"
    and "length (heap e) < length (heap e2)"
    and "otype (heap e2 ! length (heap e)) = node_type n"
proof -
  let ?h = "heap e" and ?c = "current e" and ?e1 = "openNode n e"
  let ?p = "length ?h" and ?h2 = "heap e2"
  have c: "?c < ?p" and ok: "heap_ok ?h" using inv by (auto simp: emitter_inv_def)
  have cur1: "current ?e1 = ?p" by (simp add: heap_openNode)
  have len1: "length (heap ?e1) = Suc ?p" by (simp add: heap_openNode)
  have len2: "Suc ?p \<le> length ?h2" using app len1 unfolding grown_def by simp
  then show lt: "?p < length ?h2" by simp
  have fr1: "heap e2 ! q = heap ?e1 ! q" if "q < ?p" for q
    using app that cur1 len1 unfolding grown_def by simp
  show fr: "\<forall>q < ?p. q \<noteq> ?c \<longrightarrow> ?h2 ! q = ?h ! q"
    using fr1 by (simp add: nth_heap_openNode_old)
  have new: "nodeAt ?h2 ?p = BlockHtmlNode (node_type n) (node_attributes n) (node_children n @ ms)"
    using app cur1 unfolding grown_def by (simp add: nodeAt_opened)
  then show "otype (?h2 ! ?p) = node_type n" using lt by (simp add: nodeAt_unfold)
  have cell: "ocontent (?h2 ! ?c) = ocontent (?h ! ?c) @ [Ref ?p]"
    "otype (?h2 ! ?c) = otype (?h ! ?c)" "oattributes (?h2 ! ?c) = oattributes (?h ! ?c)"
    using fr1[OF c] nth_heap_openNode_current[OF c, of n] by simp_all
  have kids: "map (read_child ?h2 ?c) (ocontent (?h ! ?c)) = map (read_child ?h ?c) (ocontent (?h ! ?c))"
  proof (rule children_frame[OF ok _ _ c])
    show "?p \<le> length ?h2" using lt by simp
    show "\<forall>i. ?c < i \<and> i < ?p \<longrightarrow> ?h2 ! i = ?h ! i" using fr by simp
  qed
  have c2: "?c < length ?h2" using c lt by simp
  show "nodeAt ?h2 ?c = add_children (nodeAt ?h ?c)
          [BlockHtmlNode (node_type n) (node_attributes n) (node_children n @ ms)]"
    using c by (simp add: nodeAt_unfold[OF c2] nodeAt_unfold[OF c] cell kids read_child_def new)
qed

lemma close_opened:
  assumes inv: "emitter_inv e" and app: "appended (openNode n e) e2 ms"
  shows "\<exists>e3. closeNode (node_type n) e2 = (Inr (), e3)
           \<and> appended e e3 [BlockHtmlNode (node_type n) (node_attributes n) (node_children n @ ms)]"
proof -
  let ?p = "length (heap e)"
  let ?e3 = "e2\<lparr>root_stack := butlast (root_stack e2), current := last (butlast (root_stack e2))\<rparr>"
  have g: "grown (openNode n e) e2 ms" using app by (simp add: appended_def)
  note t = opened_tree[OF inv g]
  have st: "root_stack e \<noteq> []" and cur: "current e = last (root_stack e)"
    and bound: "\<forall>p \<in> set (root_stack e). p < ?p"
    using inv by (auto simp: emitter_inv_def)
  have st2: "root_stack e2 = root_stack e @ [?p]" and cur2: "current e2 = ?p"
    and inv2: "emitter_inv e2" and sty: "styles e2 = styles e"
    using app unfolding appended_def by (simp_all add: heap_openNode)
  have "length (root_stack e2) \<noteq> 1" using st st2 by (cases "root_stack e") simp_all
  then have cl: "closeNode (node_type n) e2 = (Inr (), ?e3)"
    using t(4) cur2 by (simp add: closeNode_def)
  have inv3: "emitter_inv ?e3"
    using inv2 st cur bound t(3) st2 unfolding emitter_inv_def by auto
  have "appended e ?e3 [BlockHtmlNode (node_type n) (node_attributes n) (node_children n @ ms)]"
    unfolding appended_def grown_def using inv3 t st2 cur sty by simp
  then show ?thesis using cl by blast
qed

lemma run_forest:
  assumes each: "\<And>n e. n \<in> set ns \<Longrightarrow> emitter_inv e \<Longrightarrow>
             \<exists>e'. run (calls_of n) e = (Inr (), e') \<and> appended e e' [mirror n]"
    and inv: "emitter_inv e"
  shows "\<exists>e'. run (concat (map calls_of ns)) e = (Inr (), e') \<and> appended e e' (map mirror ns)"
  using each inv
proof (induction ns arbitrary: e)
  case Nil
  then show ?case by (simp add: appended_refl)
next
  case (Cons n ns)
  obtain e1 where 1: "run (calls_of n) e = (Inr (), e1)" "appended e e1 [mirror n]"
    using Cons.prems(1)[of n e] Cons.prems(2) by auto
  have inv1: "emitter_inv e1" using 1(2) by (simp add: appended_def)
  obtain e2 where 2: "run (concat (map calls_of ns)) e1 = (Inr (), e2)" "appended e1 e2 (map mirror ns)"
    using Cons.IH[OF _ inv1] Cons.prems(1) by auto
  have "run (concat (map calls_of (n # ns))) e = (Inr (), e2)"
    using 1(1) 2(1) by (simp add: run_append)
  moreover have "appended e e2 (map mirror (n # ns))"
    using appended_trans[OF 1(2) 2(2)] by simp
  ultimately show ?case by blast
qed

lemma run_calls_of:
  "emitter_inv e \<Longrightarrow> \<exists>e'. run (calls_of n) e = (Inr (), e') \<and> appended e e' [mirror n]"
proof (induction n arbitrary: e)
  case (Leaf x)
  then show ?case by (simp add: appended_appendChild)
next
  case (Nested t at cs ns)
  let ?n = "BlockHtmlNode t at cs"
  have inv1: "emitter_inv (openNode ?n e)" by (rule inv_openNode[OF Nested.prems])
  obtain e2 where 2: "run (concat (map calls_of ns)) (openNode ?n e) = (Inr (), e2)"
      "appended (openNode ?n e) e2 (map mirror ns)"
    using run_forest[OF Nested.IH inv1] by blast
  obtain e3 where 3: "closeNode t e2 = (Inr (), e3)"
      "appended e e3 [BlockHtmlNode t at (cs @ map mirror ns)]"
    using close_opened[OF Nested.prems 2(2)] by auto
  have "run (calls_of (Nested t at cs ns)) e = (Inr (), e3)"
    using 2(1) 3(1) by (simp add: run_append)
  then show ?case using 3(2) by simp
qed

lemma inv_new: "emitter_inv (new_HtmlEmitter rootTag)"
  by (simp add: emitter_inv_def new_HtmlEmitter_def heap_ok_def)

lemma nodeAt_new: "nodeAt (heap (new_HtmlEmitter rootTag)) 0 = BlockHtmlNode rootTag None []"
  by (simp add: nodeAt_unfold new_HtmlEmitter_def)



lemma root_after_grown:
  assumes g: "grown (new_HtmlEmitter rootTag) e' ns" and st: "root_stack e' = [0] @ ps"
  shows "root e' = BlockHtmlNode rootTag None ns"
proof -
  have "current (new_HtmlEmitter rootTag) = 0" by (simp add: new_HtmlEmitter_def)
  then have "nodeAt (heap e') 0 = BlockHtmlNode rootTag None ns"
    using g unfolding grown_def by (simp add: nodeAt_new)
  then show ?thesis using st by (simp add: root_def)
qed

section \<open>Properties of file names and of the translation of doc nodes\<close>

lemma nat_text_digit: "n < 10 \<Longrightarrow> nat_text n = [''0123456789'' ! n]"
  by (simp add: nat_text.simps)


lemma translateNode_unresolved:
  assumes "unresolved env ctx node"
  shows "\<exists>line. translateNode env ctx node result = (Inr result, [Log line])"
proof -
  obtain linkText url reference where n: "node = DocLinkTag linkText url (Some reference)"
    using assms by (cases "(env, ctx, node)" rule: unresolved.cases) auto
  show ?thesis using assms unfolding n
    by (auto split: option.splits)
qed

lemma forEachNode_append:
  "forEachNode env ctx (xs @ ys) r =
     (case forEachNode env ctx xs r of
        (Inl err, l) \<Rightarrow> (Inl err, l)
      | (Inr r', l) \<Rightarrow> (case forEachNode env ctx ys r' of (x, l') \<Rightarrow> (x, l @ l')))"
  by (induction xs arbitrary: r) (auto split: prod.splits sum.splits)

lemma prune_translate:
  "fst (createDocNodes env ctx nodes) = fst (createDocNodes env ctx (pruneNodes env ctx nodes))"
  "fst (forEachNode env ctx nodes r) = fst (forEachNode env ctx (pruneNodes env ctx nodes) r)"
  "\<not> unresolved env ctx node \<Longrightarrow>
     fst (translateNode env ctx node r) = fst (translateNode env ctx (pruneNode env ctx node) r)"
proof (induction env ctx nodes and env ctx nodes r and env ctx node r
       rule: createDocNodes_forEachNode_translateNode.induct)
  case (1 env ctx nodes)
  then show ?case by (auto split: prod.splits sum.splits)
next
  case (2 env ctx r)
  then show ?case by simp
next
  case (3 env ctx node nodes r)
  show ?case
  proof (cases "unresolved env ctx node")
    case True
    then obtain line where "translateNode env ctx node r = (Inr r, [Log line])"
      using translateNode_unresolved by blast
    then show ?thesis using True 3(2)[of "Inr r" "[Log line]" r]
      by (cases "forEachNode env ctx nodes r") auto
  next
    case False
    show ?thesis
    proof (cases "translateNode env ctx node r")
      case (Pair x l)
      then have p: "fst (translateNode env ctx (pruneNode env ctx node) r) = x"
        using 3(1)[OF False] by simp
      show ?thesis
      proof (cases x)
        case (Inl err)
        then show ?thesis using False Pair p
          by (cases "translateNode env ctx (pruneNode env ctx node) r") (auto)
      next
        case (Inr r')
        then show ?thesis using False Pair p 3(2)[of x l r']
          by (cases "translateNode env ctx (pruneNode env ctx node) r") (auto split: prod.splits)
      qed
    qed
  qed
next
  case (4 env ctx nodes r)
  then show ?case
    by (cases "createDocNodes env ctx nodes"; cases "createDocNodes env ctx (pruneNodes env ctx nodes)")
       (auto split: sum.splits)
next
  case (5 env ctx nodes r)
  then show ?case
    by (cases "createDocNodes env ctx nodes"; cases "createDocNodes env ctx (pruneNodes env ctx nodes)")
       (auto split: sum.splits)
qed simp_all

lemma log_count:
  "createDocNodes env ctx nodes = (Inr hs, l) \<Longrightarrow> length l = countUnresolved env ctx nodes"
  "forEachNode env ctx nodes r = (Inr r', l) \<Longrightarrow> length l = countUnresolved env ctx nodes"
  "translateNode env ctx node r = (Inr r', l) \<Longrightarrow> length l = countUnresolvedIn env ctx node"
proof (induction env ctx nodes and env ctx nodes r and env ctx node r
       arbitrary: hs l and r' l and r' l
       rule: createDocNodes_forEachNode_translateNode.induct)
  case (1 env ctx nodes)
  then show ?case by (auto split: prod.splits sum.splits)
next
  case (2 env ctx r)
  then show ?case by simp
next
  case (3 env ctx node nodes r)
  obtain x l1 where t: "translateNode env ctx node r = (x, l1)" by (cases "translateNode env ctx node r")
  with 3(3) obtain r1 where x: "x = Inr r1" by (cases x) auto
  obtain y l2 where f: "forEachNode env ctx nodes r1 = (y, l2)" by (cases "forEachNode env ctx nodes r1")
  with 3(3) t x have y: "y = Inr r'" "l = l1 @ l2" by auto
  have "length l1 = countUnresolvedIn env ctx node" using 3(1) t x by simp
  moreover have "length l2 = countUnresolved env ctx nodes" using 3(2)[OF t[symmetric] x] f y by simp
  ultimately show ?case using y by simp
next
  case (4 env ctx nodes r)
  then show ?case by (auto split: prod.splits sum.splits)
next
  case (5 env ctx nodes r)
  then show ?case by (auto split: prod.splits sum.splits)
next
  case (11 env ctx linkText urlDestination codeDestination r)
  then show ?case
    by (cases codeDestination) (auto split: option.splits prod.splits simp: Let_def)
next
  case (14 env ctx nm r)
  then show ?case by (auto split: prod.splits sum.splits)
qed auto

lemma add_children_block:
  "add_children (BlockHtmlNode t at cs) ns = BlockHtmlNode t at (cs @ ns)"
  by simp

lemma lastDocBlock_take_Suc:
  "lastDocBlock (take (Suc (Suc i)) (p # ps)) =
     (case lastDocBlock (take (Suc i) ps) of Some nodes \<Rightarrow> Some nodes | None \<Rightarrow> tsdocParamBlock p)"
  by simp

lemma parameterRows_general:
  "parameterRows env ctx ps d tbl = (Inr t, l) \<Longrightarrow>
   t = add_children tbl (map (row_with env ctx d ps) [0..<length ps])"
proof (induction ps arbitrary: d tbl l)
  case Nil
  then show ?case by (cases tbl) auto
next
  case (Cons p ps)
  have upt: "map (row_with env ctx d (p # ps)) [0..<length (p # ps)]
      = row_with env ctx d (p # ps) 0 # map (\<lambda>i. row_with env ctx d (p # ps) (Suc i)) [0..<length ps]"
    by (simp add: map_upt_Suc del: upt_Suc)
  show ?case
  proof (cases "tsdocParamBlock p")
    case None
    let ?row = "tr [CellStr (parameterName p), CellStr (parameterTypeExcerpt p), d]"
    have r: "parameterRows env ctx ps d (push_row tbl ?row) = (Inr t, l)"
      using Cons.prems None by simp
    have 0: "row_with env ctx d (p # ps) 0 = ?row"
      using None by (simp add: row_with_def)
    have s: "row_with env ctx d (p # ps) (Suc i) = row_with env ctx d ps i" for i
      using None by (simp add: row_with_def split: option.splits)
    show ?thesis
      using Cons.IH[OF r] upt 0 s by (simp add: push_row_def add_children_append)
  next
    case (Some nodes)
    obtain x l1 where c: "createDocNodes env ctx nodes = (x, l1)" by (cases "createDocNodes env ctx nodes")
    with Cons.prems Some obtain ns where x: "x = Inr ns" by (cases x) auto
    let ?d = "CellNode (first_node ns)"
    let ?row = "tr [CellStr (parameterName p), CellStr (parameterTypeExcerpt p), ?d]"
    obtain l2 where r: "parameterRows env ctx ps ?d (push_row tbl ?row) = (Inr t, l2)"
      using Cons.prems Some c x
      by (cases "parameterRows env ctx ps ?d (push_row tbl ?row)") (auto simp: prepend_def)
    have tr: "translation env ctx nodes = ns" using c x by (simp add: translation_def)
    have 0: "row_with env ctx d (p # ps) 0 = ?row"
      using Some tr by (simp add: row_with_def)
    have s: "row_with env ctx d (p # ps) (Suc i) = row_with env ctx ?d ps i" for i
      using Some tr by (simp add: row_with_def split: option.splits)
    show ?thesis
      using Cons.IH[OF r] upt 0 s by (simp add: push_row_def add_children_append)
  qed
qed

lemma row_with_empty:
  "row_with env ctx (CellStr []) ps i =
     tr [CellStr (parameterName (ps ! i)), CellStr (parameterTypeExcerpt (ps ! i)),
         descriptionCell env ctx ps i]"
  by (simp add: row_with_def descriptionCell_def split: option.splits)

section \<open>Properties of page generation\<close>

lemma appended_inv: "appended e e' ns \<Longrightarrow> emitter_inv e'"
  by (simp add: appended_def)

lemma appended_append1:
  assumes "appended e e' ns" shows "appended e (appendChild n e') (ns @ [n])"
  by (rule appended_trans[OF assms appended_appendChild[OF appended_inv[OF assms]]])

lemma appended_append2:
  assumes "appended e e' ns" shows "appended e (appendChild m (appendChild n e')) (ns @ [n, m])"
  using appended_append1[OF appended_append1[OF assms, of n], of m] by simp

lemma appendSection_appended:
  assumes "appended e e' ns"
  shows "appended e (appendSection heading tbl e') (ns @ sectionNodes heading tbl)"
  using assms appended_append2[OF assms]
  by (simp add: appendSection_def sectionNodes_def)

lemma writtenFiles_append [simp]: "writtenFiles (xs @ ys) = writtenFiles xs @ writtenFiles ys"
  by (induction xs rule: writtenFiles.induct) simp_all

lemma logs_only_translation:
  "writtenFiles (snd (createDocNodes env ctx nodes)) = []"
  "writtenFiles (snd (forEachNode env ctx nodes r)) = []"
  "writtenFiles (snd (translateNode env ctx node r)) = []"
proof (induction env ctx nodes and env ctx nodes r and env ctx node r
       rule: createDocNodes_forEachNode_translateNode.induct)
  case (3 env ctx node nodes r)
  show ?case
  proof (cases "translateNode env ctx node r")
    case (Pair x l)
    then have l: "writtenFiles l = []" using 3(1) by simp
    show ?thesis
    proof (cases x)
      case (Inl err) then show ?thesis using Pair l by simp
    next
      case (Inr r')
      then show ?thesis using Pair l 3(2)[of x l r']
        by (cases "forEachNode env ctx nodes r'") simp
    qed
  qed
next
  case (11 env ctx linkText urlDestination codeDestination r)
  then show ?case by (auto split: option.splits prod.splits simp: Let_def)
qed (auto split: prod.splits sum.splits)

lemma createDocNodes_logs: "createDocNodes env ctx nodes = (x, l) \<Longrightarrow> writtenFiles l = []"
  using logs_only_translation(1)[of env ctx nodes] by simp

lemma inv_addStyle: "emitter_inv e \<Longrightarrow> emitter_inv (addStyle s e)"
  by (simp add: emitter_inv_def addStyle_def)

lemma mainContainer_block: "mainContainer = BlockHtmlNode ''div'' (Some [(''class'', ''main'')]) []"
  by (simp add: mainContainer_def tag_def)

lemma inv_pageStart: "emitter_inv pageStart"
  unfolding pageStart_def
  by (intro inv_openNode appended_inv[OF appended_appendChild] inv_addStyle inv_new)

lemma breadcrumbLoop_appended:
  "emitter_inv out \<Longrightarrow> \<exists>ms. appended out (breadcrumbLoop env passed hs out) ms"
proof (induction hs arbitrary: passed out)
  case Nil
  then show ?case using appended_refl by auto
next
  case (Cons h hs)
  let ?o1 = "if kind h = Model \<or> kind h = EntryPoint then out
        else appendChild (a_elem (displayName h) (getLinkFilenameForApiItem env passed h) (Some ''breadcrumb''))
               (appendChild (tag ''span'' (S ''breadcrumb'') (S '' / '')) out)"
  have "\<exists>ms. appended out ?o1 ms"
    using appended_refl[OF Cons.prems] appended_append2[OF appended_refl[OF Cons.prems]]
    by (cases "kind h = Model \<or> kind h = EntryPoint") auto
  then obtain ms1 where 1: "appended out ?o1 ms1" by blast
  obtain ms2 where 2: "appended ?o1 (breadcrumbLoop env (passed @ [h]) hs ?o1) ms2"
    using Cons.IH[OF appended_inv[OF 1]] by blast
  show ?case using appended_trans[OF 1 2] by auto
qed

lemma writeBreadcrumb_appended:
  assumes "emitter_inv out" shows "\<exists>ms. appended out (writeBreadcrumb env out item) ms"
proof -
  let ?o1 = "appendChild (a_elem ''Home'' (getLinkFilenameForApiItem env [] (apiModel env)) (Some ''breadcrumb'')) out"
  have 1: "appended out ?o1 [a_elem ''Home'' (getLinkFilenameForApiItem env [] (apiModel env)) (Some ''breadcrumb'')]"
    by (rule appended_appendChild[OF assms])
  obtain ms where 2: "appended ?o1 (breadcrumbLoop env [] (getHierarchy (fst item) (snd item)) ?o1) ms"
    using breadcrumbLoop_appended[OF appended_inv[OF 1]] by blast
  show ?thesis using appended_trans[OF 1 2] by (auto simp: writeBreadcrumb_def)
qed

lemma writePageHeader_result:
  "writePageHeader env first out = (Inr out', l) \<Longrightarrow>
   (\<exists>n. out' = appendChild n out) \<and> writtenFiles l = []"
  by (cases "kind first") (auto simp: writePageHeader_def Let_def)

lemma writeSummaries_appended:
  "writeSummaries env ctx items out = (Inr out', l) \<Longrightarrow> emitter_inv out \<Longrightarrow>
   (\<exists>ms. appended out out' ms) \<and> writtenFiles l = []"
proof (induction items arbitrary: out l)
  case Nil
  then show ?case using appended_refl by auto
next
  case (Cons item items)
  show ?case
  proof (cases "tsdocComment item")
    case None
    then show ?thesis using Cons by simp
  next
    case (Some c)
    obtain x l1 where d: "createDocNodes env ctx (summarySection c) = (x, l1)"
      by (cases "createDocNodes env ctx (summarySection c)")
    with Cons.prems Some obtain ns where x: "x = Inr ns" by (cases x) auto
    let ?o1 = "appendChild (tag ''div'' (S ''summary'') (L ns)) out"
    obtain l2 where r: "writeSummaries env ctx items ?o1 = (Inr out', l2)" and l: "l = l1 @ l2"
      using Cons.prems(1) Some d x
      by (cases "writeSummaries env ctx items ?o1") (auto simp: prepend_def)
    have 1: "appended out ?o1 [tag ''div'' (S ''summary'') (L ns)]"
      by (rule appended_appendChild[OF Cons.prems(2)])
    obtain ms where 2: "appended ?o1 out' ms" and l2: "writtenFiles l2 = []"
      using Cons.IH[OF r appended_inv[OF 1]] by blast
    show ?thesis using appended_trans[OF 1 2] l l2 createDocNodes_logs[OF d] by auto
  qed
qed

lemma foldl_appendChild_appended:
  "emitter_inv out \<Longrightarrow> appended out (foldl (\<lambda>out d. appendChild (g d) out) out ds) (map g ds)"
proof (induction ds arbitrary: out)
  case Nil
  then show ?case by (simp add: appended_refl)
next
  case (Cons d ds)
  have 1: "appended out (appendChild (g d) out) [g d]" by (rule appended_appendChild[OF Cons.prems])
  show ?case using appended_trans[OF 1 Cons.IH[OF appended_inv[OF 1]]] by simp
qed

lemma writeSignatures_appended:
  assumes "emitter_inv out" shows "\<exists>ms. appended out (writeSignatures items out) ms"
proof -
  let ?sigs = "filter (\<lambda>d. length (excerptText d) > 0) (map the (filter (\<lambda>d. d \<noteq> None) (map declared items)))"
  let ?o1 = "if length ?sigs > 0
            then appendChild (tag ''div'' (S ''signature-heading'') (S ''Signature'')) out else out"
  have "\<exists>ms. appended out ?o1 ms"
    using appended_refl[OF assms] appended_appendChild[OF assms] by (cases "length ?sigs > 0") auto
  then obtain ms1 where 1: "appended out ?o1 ms1" by blast
  note 2 = foldl_appendChild_appended[OF appended_inv[OF 1],
      of "\<lambda>d. tag ''pre'' (S ''signature'') (S (excerptWithModifiers d))" ?sigs]
  show ?thesis unfolding writeSignatures_def Let_def
    by (rule exI, rule appended_trans[OF 1 2])
qed

lemma writeRemarksSection_appended:
  assumes r: "writeRemarksSection env out item ctx = (Inr out', l)" and inv: "emitter_inv out"
  shows "(\<exists>ms. appended out out' ms) \<and> writtenFiles l = []"
proof (cases "tsdocComment item")
  case None
  then show ?thesis using r appended_refl[OF inv] by (auto simp: writeRemarksSection_def)
next
  case (Some c)
  show ?thesis
  proof (cases "remarksBlock c")
    case None
    then show ?thesis using r Some appended_refl[OF inv] by (auto simp: writeRemarksSection_def)
  next
    case (Some nodes)
    obtain x l1 where d: "createDocNodes env ctx nodes = (x, l1)" by (cases "createDocNodes env ctx nodes")
    with r \<open>tsdocComment item = Some c\<close> Some obtain ns where x: "x = Inr ns"
      by (cases x) (auto simp: writeRemarksSection_def)
    have "out' = appendChild (tag ''div'' (L ns) Undef)
                   (appendChild (tag ''h3'' (S ''section-heading'') (S ''Remarks'')) out)" and "l = l1"
      using r \<open>tsdocComment item = Some c\<close> Some d x by (auto simp: writeRemarksSection_def)
    then show ?thesis
      using appended_append2[OF appended_refl[OF inv]] createDocNodes_logs[OF d] by auto
  qed
qed

lemma writeRemarks_appended:
  "writeRemarks env ctx items out = (Inr out', l) \<Longrightarrow> emitter_inv out \<Longrightarrow>
   (\<exists>ms. appended out out' ms) \<and> writtenFiles l = []"
proof (induction items arbitrary: out l)
  case Nil
  then show ?case using appended_refl by auto
next
  case (Cons item items)
  obtain x l1 where s: "writeRemarksSection env out item ctx = (x, l1)"
    by (cases "writeRemarksSection env out item ctx")
  with Cons.prems obtain o1 where x: "x = Inr o1" by (cases x) auto
  obtain l2 where r: "writeRemarks env ctx items o1 = (Inr out', l2)" and l: "l = l1 @ l2"
    using Cons.prems(1) s x by (cases "writeRemarks env ctx items o1") (auto simp: prepend_def)
  obtain ms1 where 1: "appended out o1 ms1" and l1: "writtenFiles l1 = []"
    using writeRemarksSection_appended[OF s[unfolded x] Cons.prems(2)] by blast
  obtain ms2 where 2: "appended o1 out' ms2" and l2: "writtenFiles l2 = []"
    using Cons.IH[OF r appended_inv[OF 1]] by blast
  show ?case using appended_trans[OF 1 2] l l1 l2 by auto
qed

lemma writePageTop_unfold:
  "writePageTop env ancestors items =
     (case writePageHeader env (hd items) (writeBreadcrumb env pageStart (ancestors, hd items)) of
        (Inl err, l) \<Rightarrow> (Inl err, l)
      | (Inr o4, l) \<Rightarrow>
          (case writeSummaries env (ancestors, hd items) items o4 of
             (Inl err, l') \<Rightarrow> (Inl err, l @ l')
           | (Inr o6, l') \<Rightarrow>
               prepend (l @ l')
                 (writeRemarks env (ancestors, hd items) items (writeSignatures items o6))))"
  unfolding writePageTop_def Let_def pageStart_def writeBetaWarning_def if_cancel
  by (rule refl)

lemma writePageTop_appended:
  assumes t: "writePageTop env ancestors items = (Inr out, l)"
  shows "(\<exists>ns. appended pageStart out ns) \<and> writtenFiles l = []"
proof -
  let ?first = "hd items"
  let ?o3 = "writeBreadcrumb env pageStart (ancestors, ?first)"
  obtain ms3 where 3: "appended pageStart ?o3 ms3"
    using writeBreadcrumb_appended[OF inv_pageStart] by blast
  obtain x l1 where h: "writePageHeader env ?first ?o3 = (x, l1)"
    by (cases "writePageHeader env ?first ?o3")
  with t obtain o4 where x: "x = Inr o4"
    by (cases x) (auto simp: writePageTop_unfold)
  obtain n where o4: "o4 = appendChild n ?o3" and l1: "writtenFiles l1 = []"
    using writePageHeader_result[OF h[unfolded x]] by blast
  have 4: "appended pageStart o4 (ms3 @ [n])" unfolding o4 by (rule appended_append1[OF 3])
  obtain y l2 where s: "writeSummaries env (ancestors, ?first) items o4 = (y, l2)"
    by (cases "writeSummaries env (ancestors, ?first) items o4")
  with t h x obtain o6 where y: "y = Inr o6"
    by (cases y) (auto simp: writePageTop_unfold)
  obtain ms6 where 6: "appended o4 o6 ms6" and l2: "writtenFiles l2 = []"
    using writeSummaries_appended[OF s[unfolded y] appended_inv[OF 4]] by blast
  obtain ms7 where 7: "appended o6 (writeSignatures items o6) ms7"
    using writeSignatures_appended[OF appended_inv[OF 6]] by blast
  obtain l3 where r: "writeRemarks env (ancestors, ?first) items (writeSignatures items o6) = (Inr out, l3)"
      and l: "l = (l1 @ l2) @ l3"
    using t h x s y
    by (cases "writeRemarks env (ancestors, ?first) items (writeSignatures items o6)")
       (auto simp: writePageTop_unfold prepend_def)
  obtain ms8 where 8: "appended (writeSignatures items o6) out ms8" and l3: "writtenFiles l3 = []"
    using writeRemarks_appended[OF r appended_inv[OF 7]] by blast
  have "appended pageStart out (((ms3 @ [n]) @ ms6) @ ms7 @ ms8)"
    by (rule appended_trans[OF appended_trans[OF 4 6] appended_trans[OF 7 8]])
  then show ?thesis using l l1 l2 l3 by auto
qed

lemma add_children_nil [simp]: "add_children n [] = n"
  by (cases n) simp_all

lemma throwsRows_result:
  "throwsRows env ctx blocks tbl = (Inr t, l) \<Longrightarrow>
   (\<exists>rows. t = add_children tbl rows \<and> length rows = length blocks) \<and> writtenFiles l = []"
proof (induction blocks arbitrary: tbl l)
  case Nil
  then show ?case by (auto intro: exI[of _ "[]"])
next
  case (Cons b blocks)
  obtain x l1 where d: "createDocNodes env ctx b = (x, l1)" by (cases "createDocNodes env ctx b")
  with Cons.prems obtain ns where x: "x = Inr ns" by (cases x) auto
  let ?row = "tr [CellNode (tag ''span'' (L ns) Undef)]"
  obtain l2 where r: "throwsRows env ctx blocks (push_row tbl ?row) = (Inr t, l2)" and l: "l = l1 @ l2"
    using Cons.prems d x
    by (cases "throwsRows env ctx blocks (push_row tbl ?row)") (auto simp: prepend_def)
  obtain rows where t: "t = add_children (push_row tbl ?row) rows" "length rows = length blocks"
    and l2: "writtenFiles l2 = []"
    using Cons.IH[OF r] by blast
  have "t = add_children tbl (?row # rows)" using t(1) by (simp add: push_row_def add_children_append)
  then show ?case using t(2) l l2 createDocNodes_logs[OF d]
    by (auto intro: exI[of _ "?row # rows"])
qed

lemma writeThrowsSection_some:
  assumes c: "tsdocComment item = Some c"
    and w: "writeThrowsSection env out item ctx = (Inr out', l)"
    and inv: "emitter_inv out"
  shows "\<exists>rows. appended out out'
            [tag ''h3'' (S ''section-heading'') (S ''Throws''), add_children (table [''Error'']) rows]
          \<and> length rows = length (filter (\<lambda>x. fst x = ''@THROWS'') (customBlocks c))
          \<and> writtenFiles l = []"
proof -
  let ?blocks = "map snd (filter (\<lambda>x. fst x = ''@THROWS'') (customBlocks c))"
  obtain x l1 where r: "throwsRows env ctx ?blocks (table [''Error'']) = (x, l1)"
    by (cases "throwsRows env ctx ?blocks (table [''Error''])")
  with w c obtain t where x: "x = Inr t"
    by (cases x) (auto simp: writeThrowsSection_def Let_def)
  have o: "out' = appendChild t (appendChild (tag ''h3'' (S ''section-heading'') (S ''Throws'')) out)"
    and l: "l = l1"
    using w c r x by (auto simp: writeThrowsSection_def Let_def)
  obtain rows where t: "t = add_children (table [''Error'']) rows" "length rows = length ?blocks"
    and l1: "writtenFiles l1 = []"
    using throwsRows_result[OF r[unfolded x]] by blast
  have "appended out out' [tag ''h3'' (S ''section-heading'') (S ''Throws''), t]"
    unfolding o using appended_append2[OF appended_refl[OF inv]] by simp
  then show ?thesis using t l l1 by auto
qed

lemma writeThrowsSection_none:
  "tsdocComment item = None \<Longrightarrow> writeThrowsSection env out item ctx = (Inr out, [])"
  by (simp add: writeThrowsSection_def)

lemma writeThrowsSection_appended:
  assumes w: "writeThrowsSection env out item ctx = (Inr out', l)" and inv: "emitter_inv out"
  shows "(\<exists>ms. appended out out' ms) \<and> writtenFiles l = []"
proof (cases "tsdocComment item")
  case None
  then show ?thesis using w appended_refl[OF inv] by (auto simp: writeThrowsSection_none)
next
  case (Some c)
  then show ?thesis using writeThrowsSection_some[OF Some w inv] by blast
qed

lemma parameterRows_logs:
  "parameterRows env ctx ps d tbl = (x, l) \<Longrightarrow> writtenFiles l = []"
proof (induction ps arbitrary: d tbl l x)
  case Nil
  then show ?case by simp
next
  case (Cons p ps)
  show ?case
  proof (cases "tsdocParamBlock p")
    case None
    then show ?thesis using Cons by simp
  next
    case (Some nodes)
    obtain y l1 where c: "createDocNodes env ctx nodes = (y, l1)" by (cases "createDocNodes env ctx nodes")
    show ?thesis
    proof (cases y)
      case (Inl err)
      then show ?thesis using Cons.prems Some c createDocNodes_logs[OF c] by simp
    next
      case (Inr ns)
      let ?r = "parameterRows env ctx ps (CellNode (first_node ns))
                  (push_row tbl (tr [CellStr (parameterName p), CellStr (parameterTypeExcerpt p),
                                     CellNode (first_node ns)]))"
      obtain z l2 where r: "?r = (z, l2)" by (cases ?r)
      have "l = l1 @ l2" using Cons.prems Some c Inr r by (simp add: prepend_def)
      then show ?thesis using Cons.IH[OF r] createDocNodes_logs[OF c] by simp
    qed
  qed
qed

lemma ex_appended_refl: "emitter_inv out \<Longrightarrow> \<exists>ms. appended out out ms"
  using appended_refl by blast

lemma ex_appended_append: "\<exists>ms. appended out out1 ms \<Longrightarrow> \<exists>ms. appended out (appendChild n out1) ms"
  using appended_append1 by blast

lemma parameterRows_logs_snd [simp]:
  "writtenFiles (snd (parameterRows env ctx ps d tbl)) = []"
  using parameterRows_logs[of env ctx ps d tbl] by (cases "parameterRows env ctx ps d tbl") simp

lemma createDocNodes_logs_snd [simp]:
  "writtenFiles (snd (createDocNodes env ctx nodes)) = []"
  by (rule logs_only_translation(1))

lemma writeParameterTables_logs:
  "writtenFiles (snd (writeParameterTables env out item ctx)) = []"
  by (simp add: writeParameterTables_def Let_def split_beta
           del: createDocNodes.simps split: option.splits sum.splits)

lemma writeParameterTables_appended:
  assumes w: "writeParameterTables env out item ctx = (Inr out', l)" and inv: "emitter_inv out"
  shows "(\<exists>ms. appended out out' ms) \<and> writtenFiles l = []"
proof
  show "\<exists>ms. appended out out' ms"
    using w inv
    by (auto simp: writeParameterTables_def Let_def simp del: createDocNodes.simps
             split: option.splits prod.splits sum.splits if_splits
             intro!: ex_appended_append ex_appended_refl)
  show "writtenFiles l = []" using writeParameterTables_logs[of env out item ctx] w by simp
qed

lemma writeEnumTables_appended:
  assumes w: "writeEnumTables env out item ctx = (Inr out', l)" and inv: "emitter_inv out"
  shows "\<exists>ms. appended out out' ms"
proof -
  let ?r = "enumRows env ctx (members item) (table [''Member'', ''Value'', ''Description''])"
  obtain x l1 where r: "?r = (x, l1)" by (cases ?r)
  with w obtain t where x: "x = Inr t" by (cases x) (auto simp: writeEnumTables_def)
  have "out' = (if content_length t > 1
                then appendChild t (appendChild (tag ''h3'' (S ''section-heading'') (S ''Enumeration Members'')) out)
                else out)"
    using w r x by (auto simp: writeEnumTables_def)
  then show ?thesis
    using appended_refl[OF inv] appended_append2[OF appended_refl[OF inv]]
    by (cases "content_length t > 1") auto
qed

lemma writeModelTable_appended:
  assumes w: "writeModelTable env anc out item ctx = (Inr out', l)" and inv: "emitter_inv out"
  shows "\<exists>ms. appended out out' ms"
proof -
  let ?r = "writeModelMembers env (anc @ [item]) ctx (members item) (table [''Package'', ''Description''])"
  obtain x l1 where r: "?r = (x, l1)" by (cases ?r)
  with w obtain t where x: "x = Inr t" by (cases x) (auto simp: writeModelTable.simps)
  have "out' = (if content_length t > 0
                then appendChild t (appendChild (tag ''h3'' (S ''section-heading'') (S ''Packages'')) out)
                else out)"
    using w r x by (auto simp: writeModelTable.simps)
  then show ?thesis
    using appended_refl[OF inv] appended_append2[OF appended_refl[OF inv]]
    by (cases "content_length t > 0") auto
qed

lemma appendClassSections_appended:
  assumes inv: "emitter_inv out" shows "\<exists>ms. appended out (appendClassSections t out) ms"
proof -
  have "appended out (appendClassSections t out)
          (((([] @ sectionNodes ''Events'' (c_eventsTable t))
             @ sectionNodes ''Constructors'' (c_constructorsTable t))
            @ sectionNodes ''Properties'' (c_propertiesTable t))
           @ sectionNodes ''Methods'' (c_methodsTable t))"
    unfolding appendClassSections_def
    by (intro appendSection_appended appended_refl[OF inv])
  then show ?thesis by blast
qed

lemma appendInterfaceSections_appended:
  assumes inv: "emitter_inv out" shows "\<exists>ms. appended out (appendInterfaceSections t out) ms"
proof -
  have "appended out (appendInterfaceSections t out)
          ((([] @ sectionNodes ''Events'' (i_eventsTable t))
            @ sectionNodes ''Properties'' (i_propertiesTable t))
           @ sectionNodes ''Methods'' (i_methodsTable t))"
    unfolding appendInterfaceSections_def
    by (intro appendSection_appended appended_refl[OF inv])
  then show ?thesis by blast
qed

lemma appendContainerSections_appended:
  assumes inv: "emitter_inv out"
  shows "appended out (appendContainerSections t out)
           (concat (map (\<lambda>c. sectionNodes c (categoryTable c t)) categoryHeadings))"
proof -
  note s = appendSection_appended
  have "appended out (appendContainerSections t out)
          (((((((([] @ sectionNodes ''Classes'' (classesTable t))
                 @ sectionNodes ''Enumerations'' (enumerationsTable t))
                @ sectionNodes ''Functions'' (functionsTable t))
               @ sectionNodes ''Interfaces'' (interfacesTable t))
              @ sectionNodes ''Namespaces'' (namespacesTable t))
             @ sectionNodes ''Variables'' (variablesTable t))
            @ sectionNodes ''Types'' (typeAliasesTable t))
           @ sectionNodes ''Exceptions'' (exceptionsTable t))"
    unfolding appendContainerSections_def
    by (intro s appended_refl[OF inv])
  then show ?thesis by (simp add: categoryHeadings_def categoryTable_def)
qed

lemma writeClassTables_appended:
  assumes w: "writeClassTables env anc out item ctx = (Inr out', l)" and inv: "emitter_inv out"
  shows "\<exists>ms. appended out out' ms"
proof -
  let ?r = "writeClassMembers env (anc @ [item]) ctx (members item) newClassTables"
  obtain x l1 where r: "?r = (x, l1)" by (cases ?r)
  with w obtain t where x: "x = Inr t" by (cases x) (auto simp: writeClassTables.simps)
  have "out' = appendClassSections t out" using w r x by (auto simp: writeClassTables.simps)
  then show ?thesis using appendClassSections_appended[OF inv] by simp
qed

lemma writeInterfaceTables_appended:
  assumes w: "writeInterfaceTables env anc out item ctx = (Inr out', l)" and inv: "emitter_inv out"
  shows "\<exists>ms. appended out out' ms"
proof -
  let ?r = "writeInterfaceMembers env (anc @ [item]) ctx (members item) newInterfaceTables"
  obtain x l1 where r: "?r = (x, l1)" by (cases ?r)
  with w obtain t where x: "x = Inr t" by (cases x) (auto simp: writeInterfaceTables.simps)
  have "out' = appendInterfaceSections t out" using w r x by (auto simp: writeInterfaceTables.simps)
  then show ?thesis using appendInterfaceSections_appended[OF inv] by simp
qed

lemma writePackageOrNamespaceTables_result:
  assumes w: "writePackageOrNamespaceTables env anc out item ctx = (Inr out', l)"
  shows "\<exists>anc' ms t. apiMembersOf anc item = Some (anc', ms)
           \<and> writePackageOrNamespaceMembers env anc' ctx ms newContainerTables = (Inr t, l)
           \<and> out' = appendContainerSections t out"
proof -
  obtain anc' ms where m: "apiMembersOf anc item = Some (anc', ms)"
    using w by (cases "apiMembersOf anc item") (auto simp: writePackageOrNamespaceTables.simps)
  let ?r = "writePackageOrNamespaceMembers env anc' ctx ms newContainerTables"
  obtain x l1 where r: "?r = (x, l1)" by (cases ?r)
  with w m obtain t where x: "x = Inr t"
    by (cases x) (auto simp: writePackageOrNamespaceTables.simps)
  have "out' = appendContainerSections t out" "l = l1"
    using w m r x by (auto simp: writePackageOrNamespaceTables.simps)
  then show ?thesis using m r x by auto
qed

lemma writePackageOrNamespaceTables_appended:
  assumes w: "writePackageOrNamespaceTables env anc out item ctx = (Inr out', l)" and inv: "emitter_inv out"
  shows "\<exists>ms. appended out out' ms"
  using writePackageOrNamespaceTables_result[OF w] appendContainerSections_appended[OF inv] by blast

text \<open>The switch on the kind of one item.\<close>

lemma case_io_single:
  "(case (case k of (Inl err, l) \<Rightarrow> (Inl err, l) | (Inr o1, l) \<Rightarrow> prepend l (Inr o1, [])) of
      (Inl err, l) \<Rightarrow> (Inl err, l)
    | (Inr o1, l) \<Rightarrow> prepend l (f o1))
   = (case k of (Inl err, l) \<Rightarrow> (Inl err, l) | (Inr o1, l) \<Rightarrow> prepend l (f o1))"
  by (cases k; cases "fst k") (auto simp: prepend_def)

lemma writeKindTables_Cons_eq:
  "writeKindTables env anc ctx (item # rest) out =
     (case writeKindTables env anc ctx [item] out of
        (Inl err, l) \<Rightarrow> (Inl err, l)
      | (Inr o1, l) \<Rightarrow> prepend l (writeKindTables env anc ctx rest o1))"
  by (simp only: writeKindTables.simps case_io_single)

lemma writeKindTables_Cons:
  "writeKindTables env anc ctx (item # rest) out = (Inr out', l) \<Longrightarrow>
   \<exists>o1 l1 l2. writeKindTables env anc ctx [item] out = (Inr o1, l1)
      \<and> writeKindTables env anc ctx rest o1 = (Inr out', l2) \<and> l = l1 @ l2"
  by (subst (asm) writeKindTables_Cons_eq)
     (auto simp: prepend_def prod_eq_iff split: prod.splits sum.splits)

lemma writeKindTables_single:
  "writeKindTables env anc ctx [item] out =
     (case kind item of
              Class \<Rightarrow> writeClassTables env anc out item ctx
            | Enum \<Rightarrow> writeEnumTables env out item ctx
            | Interface \<Rightarrow> writeInterfaceTables env anc out item ctx
            | Constructor \<Rightarrow>
                (case writeParameterTables env out item ctx of
                   (Inl err, l) \<Rightarrow> (Inl err, l)
                 | (Inr out1, l) \<Rightarrow> prepend l (writeThrowsSection env out1 item ctx))
            | ConstructSignature \<Rightarrow>
                (case writeParameterTables env out item ctx of
                   (Inl err, l) \<Rightarrow> (Inl err, l)
                 | (Inr out1, l) \<Rightarrow> prepend l (writeThrowsSection env out1 item ctx))
            | Method \<Rightarrow>
                (case writeParameterTables env out item ctx of
                   (Inl err, l) \<Rightarrow> (Inl err, l)
                 | (Inr out1, l) \<Rightarrow> prepend l (writeThrowsSection env out1 item ctx))
            | MethodSignature \<Rightarrow>
                (case writeParameterTables env out item ctx of
                   (Inl err, l) \<Rightarrow> (Inl err, l)
                 | (Inr out1, l) \<Rightarrow> prepend l (writeThrowsSection env out1 item ctx))
            | Function \<Rightarrow>
                (case writeParameterTables env out item ctx of
                   (Inl err, l) \<Rightarrow> (Inl err, l)
                 | (Inr out1, l) \<Rightarrow> prepend l (writeThrowsSection env out1 item ctx))
            | Namespace \<Rightarrow> writePackageOrNamespaceTables env anc out item ctx
            | Model \<Rightarrow> writeModelTable env anc out item ctx
            | Package \<Rightarrow> writePackageOrNamespaceTables env anc out item ctx
            | Property \<Rightarrow> (Inr out, [])
            | PropertySignature \<Rightarrow> (Inr out, [])
            | TypeAlias \<Rightarrow> (Inr out, [])
            | Variable \<Rightarrow> (Inr out, [])
            | _ \<Rightarrow> (Inl (Error (''Unsupported API item kind: '' @ kind_text (kind item))), []))"
proof -
  have e: "(case k of (Inl err, l) \<Rightarrow> (Inl err, l) | (Inr o1, l) \<Rightarrow> prepend l (Inr o1, [])) = k"
    for k :: "(HtmlEmitter, 'a) io"
    by (cases k; cases "fst k") (auto simp: prepend_def)
  show ?thesis by (simp only: writeKindTables.simps e)
qed

lemma callable_kind_tables:
  assumes k: "kind item \<in> {Constructor, ConstructSignature, Method, MethodSignature, Function}"
  shows "writeKindTables env anc ctx [item] out =
           (case writeParameterTables env out item ctx of
              (Inl err, l) \<Rightarrow> (Inl err, l)
            | (Inr out1, l) \<Rightarrow> prepend l (writeThrowsSection env out1 item ctx))"
  using k by (auto simp: writeKindTables_single)

lemma writeKindTables_single_appended:
  assumes w: "writeKindTables env anc ctx [item] out = (Inr out', l)" and inv: "emitter_inv out"
  shows "\<exists>ms. appended out out' ms"
proof -
  consider (callable) "kind item \<in> {Constructor, ConstructSignature, Method, MethodSignature, Function}"
    | (cls) "kind item = Class" | (enum) "kind item = Enum" | (iface) "kind item = Interface"
    | (container) "kind item = Namespace \<or> kind item = Package" | (model) "kind item = Model"
    | (plain) "kind item \<in> {Property, PropertySignature, TypeAlias, Variable}"
    | (other) "kind item \<in> {CallSignature, EntryPoint, EnumMember, IndexSignature, NoneKind}"
    by (cases "kind item") auto
  then show ?thesis
  proof cases
    case callable
    obtain x l1 where p: "writeParameterTables env out item ctx = (x, l1)"
      by (cases "writeParameterTables env out item ctx")
    with w callable obtain o1 where x: "x = Inr o1"
      by (cases x) (auto simp: callable_kind_tables)
    obtain l2 where t: "writeThrowsSection env o1 item ctx = (Inr out', l2)"
      using w p x by (cases "writeThrowsSection env o1 item ctx")
        (auto simp: callable_kind_tables[OF callable] prepend_def)
    obtain ms1 where 1: "appended out o1 ms1"
      using writeParameterTables_appended[OF p[unfolded x] inv] by blast
    obtain ms2 where 2: "appended o1 out' ms2"
      using writeThrowsSection_appended[OF t appended_inv[OF 1]] by blast
    show ?thesis using appended_trans[OF 1 2] by blast
  next
    case cls
    then have "writeClassTables env anc out item ctx = (Inr out', l)"
      using w by (auto simp: writeKindTables_single)
    then show ?thesis by (rule writeClassTables_appended[OF _ inv])
  next
    case enum
    then have "writeEnumTables env out item ctx = (Inr out', l)"
      using w by (auto simp: writeKindTables_single)
    then show ?thesis by (rule writeEnumTables_appended[OF _ inv])
  next
    case iface
    then have "writeInterfaceTables env anc out item ctx = (Inr out', l)"
      using w by (auto simp: writeKindTables_single)
    then show ?thesis by (rule writeInterfaceTables_appended[OF _ inv])
  next
    case container
    then have "writePackageOrNamespaceTables env anc out item ctx = (Inr out', l)"
      using w by (auto simp: writeKindTables_single)
    then show ?thesis by (rule writePackageOrNamespaceTables_appended[OF _ inv])
  next
    case model
    then have "writeModelTable env anc out item ctx = (Inr out', l)"
      using w by (auto simp: writeKindTables_single)
    then show ?thesis by (rule writeModelTable_appended[OF _ inv])
  next
    case plain
    then have "out' = out"
      using w by (auto simp: writeKindTables_single)
    then show ?thesis using ex_appended_refl[OF inv] by simp
  next
    case other
    then have False
      using w by (auto simp: writeKindTables_single)
    then show ?thesis ..
  qed
qed

lemma writeKindTables_appended:
  "writeKindTables env anc ctx items out = (Inr out', l) \<Longrightarrow> emitter_inv out \<Longrightarrow>
   \<exists>ms. appended out out' ms"
proof (induction items arbitrary: out l)
  case Nil
  then show ?case using ex_appended_refl by (simp add: writeKindTables.simps(1))
next
  case (Cons item items)
  obtain o1 l1 l2 where 1: "writeKindTables env anc ctx [item] out = (Inr o1, l1)"
      and 2: "writeKindTables env anc ctx items o1 = (Inr out', l2)"
    using writeKindTables_Cons[OF Cons.prems(1)] by blast
  obtain ms1 where a1: "appended out o1 ms1"
    using writeKindTables_single_appended[OF 1 Cons.prems(2)] by blast
  obtain ms2 where a2: "appended o1 out' ms2"
    using Cons.IH[OF 2 appended_inv[OF a1]] by blast
  show ?case using appended_trans[OF a1 a2] by blast
qed

lemma finishPage_result:
  assumes a: "appended pageStart out ns"
  shows "finishPage env anc first out =
           (Inr (), [WriteFile (pathJoin env (outputFolder env) (getFilenameForApiItem env anc first))
                               (pageOf env ns)])"
proof -
  let ?e0 = "addStyle ''styles.css'' (new_HtmlEmitter ''body'')"
  let ?e1 = "appendChild siteHeader ?e0"
  have inv0: "emitter_inv ?e0" by (intro inv_addStyle inv_new)
  have a1: "appended ?e0 ?e1 [siteHeader]" by (rule appended_appendChild[OF inv0])
  have inv1: "emitter_inv ?e1" by (rule appended_inv[OF a1])
  have a': "appended (openNode mainContainer ?e1) out ns" using a by (simp add: pageStart_def)
  obtain e3 where c: "closeNode (node_type mainContainer) out = (Inr (), e3)"
      and a3: "appended ?e1 e3
                 [BlockHtmlNode (node_type mainContainer) (node_attributes mainContainer)
                    (node_children mainContainer @ ns)]"
    using close_opened[OF inv1 a'] by blast
  have c': "closeNode ''div'' out = (Inr (), e3)" using c by (simp add: mainContainer_block)
  have h0: "heap ?e0 = heap (new_HtmlEmitter ''body'')" "current ?e0 = 0" "root_stack ?e0 = [0]"
    "styles ?e0 = [''styles.css'']"
    by (simp_all add: addStyle_def new_HtmlEmitter_def)
  have n1: "nodeAt (heap ?e1) 0 = BlockHtmlNode ''body'' None [siteHeader]"
    using a1 h0 by (simp add: appended_def grown_def nodeAt_new)
  have s1: "current ?e1 = 0" "root_stack ?e1 = [0]" "styles ?e1 = [''styles.css'']"
    using a1 h0 by (simp_all add: appended_def)
  have n3: "nodeAt (heap e3) 0 = BlockHtmlNode ''body'' None
              [siteHeader, BlockHtmlNode ''div'' (Some [(''class'', ''main'')]) ns]"
    using a3 s1 n1 by (simp add: appended_def grown_def mainContainer_block)
  have s3: "root_stack e3 = [0]" "styles e3 = [''styles.css'']"
    using a3 s1 by (simp_all add: appended_def)
  have "emit (renderHTML env) e3 = pageOf env ns"
    using n3 s3 by (simp add: emit_def root_def pageOf_def)
  then show ?thesis using c' by (simp add: finishPage_def)
qed

lemma page_structure:
  assumes w: "writeApiItemPageWithSiblings env anc (first # others) = (Inr (), effs)"
  shows "\<exists>out l out' l' ns.
           writePageTop env anc (first # others) = (Inr out, l) \<and> writtenFiles l = []
           \<and> writeKindTables env anc (anc, first) (first # others) out = (Inr out', l')
           \<and> appended pageStart out' ns
           \<and> effs = l @ l' @ [WriteFile (pathJoin env (outputFolder env) (getFilenameForApiItem env anc first))
                                        (pageOf env ns)]"
proof -
  obtain x l where t: "writePageTop env anc (first # others) = (x, l)"
    by (cases "writePageTop env anc (first # others)")
  with w obtain out where x: "x = Inr out"
    by (cases x) (auto simp: writeApiItemPageWithSiblings.simps)
  obtain y l' where k: "writeKindTables env anc (anc, first) (first # others) out = (y, l')"
    by (cases "writeKindTables env anc (anc, first) (first # others) out")
  with w t x obtain out' where y: "y = Inr out'"
    by (cases y) (auto simp: writeApiItemPageWithSiblings.simps)
  obtain ns0 where a0: "appended pageStart out ns0" and l: "writtenFiles l = []"
    using writePageTop_appended[OF t[unfolded x]] by blast
  obtain ms where a1: "appended out out' ms"
    using writeKindTables_appended[OF k[unfolded y] appended_inv[OF a0]] by blast
  note a = appended_trans[OF a0 a1]
  have "effs = l @ l' @ [WriteFile (pathJoin env (outputFolder env) (getFilenameForApiItem env anc first))
                                   (pageOf env (ns0 @ ms))]"
    using w t x k y finishPage_result[OF a, of env anc first]
    by (simp add: writeApiItemPageWithSiblings.simps prepend_def)
  then show ?thesis using t x k y l a by blast
qed

lemma appended_unique:
  assumes inv: "emitter_inv e" and a: "appended e e' ns" and b: "appended e e' ms"
  shows "ns = ms"
proof -
  have c: "current e < length (heap e)" using inv by (auto simp: emitter_inv_def)
  have "add_children (nodeAt (heap e) (current e)) ns = add_children (nodeAt (heap e) (current e)) ms"
    using a b by (simp add: appended_def grown_def)
  then show ?thesis by (simp add: nodeAt_unfold[OF c])
qed

lemma category_None_push: "category m = None \<Longrightarrow> pushContainerRow m row t = None"
  by (cases "kind m") (auto simp: category_def pushContainerRow_def)

lemma category_Some_push:
  assumes "category m = Some c0"
  shows "\<exists>t1. pushContainerRow m row t = Some t1
           \<and> (\<forall>c \<in> set categoryHeadings.
                 categoryTable c t1 = (if c = c0 then push_row (categoryTable c t) row else categoryTable c t))"
  using assms
  by (cases "kind m")
     (auto simp: category_def pushContainerRow_def categoryHeadings_def categoryTable_def
           split: if_splits)

lemma then_io_Inr: "then_io m1 m2 = (Inr t, l) \<Longrightarrow> \<exists>l2. m2 = (Inr t, l2)"
  by (cases m1; cases m2) (auto simp: then_io_def split: sum.splits)

lemma prepend_Inr: "prepend l1 m = (Inr t, l) \<Longrightarrow> \<exists>l2. m = (Inr t, l2)"
  by (cases m) (auto simp: prepend_def)

lemma container_members_rows:
  "writePackageOrNamespaceMembers env anc ctx ms t0 = (Inr t, l) \<Longrightarrow>
   \<forall>c \<in> set categoryHeadings.
     \<exists>rows. categoryTable c t = add_children (categoryTable c t0) rows \<and> length rows = memberRows c ms"
proof (induction ms arbitrary: t0 l)
  case Nil
  then show ?case by (auto simp: memberRows_def intro: exI[of _ "[]"])
next
  case (Cons m ms)
  obtain x l1 where d: "createDescriptionCell env m ctx = (x, l1)"
    by (cases "createDescriptionCell env m ctx")
  with Cons.prems obtain dsc where x: "x = Inr dsc" by (cases x) auto
  let ?row = "tr [CellNode (createTitleCell env anc m), CellNode dsc]"
  show ?case
  proof (cases "category m")
    case None
    have "pushContainerRow m ?row t0 = None" by (rule category_None_push[OF None])
    then have "prepend l1 (writePackageOrNamespaceMembers env anc ctx ms t0) = (Inr t, l)"
      using Cons.prems d x by simp
    from prepend_Inr[OF this]
    obtain l2 where r: "writePackageOrNamespaceMembers env anc ctx ms t0 = (Inr t, l2)" ..
    have "memberRows c (m # ms) = memberRows c ms" for c using None by (simp add: memberRows_def)
    then show ?thesis using Cons.IH[OF r] by simp
  next
    case (Some c0)
    obtain t1 where p: "pushContainerRow m ?row t0 = Some t1"
      and t1: "\<forall>c \<in> set categoryHeadings.
                 categoryTable c t1 = (if c = c0 then push_row (categoryTable c t0) ?row else categoryTable c t0)"
      using category_Some_push[OF Some] by blast
    have "prepend l1 (then_io (writeApiItemPage env anc m)
                        (writePackageOrNamespaceMembers env anc ctx ms t1)) = (Inr t, l)"
      using Cons.prems d x p by simp
    from prepend_Inr[OF this]
    obtain l3 where "then_io (writeApiItemPage env anc m)
                        (writePackageOrNamespaceMembers env anc ctx ms t1) = (Inr t, l3)" ..
    from then_io_Inr[OF this]
    obtain l2 where r: "writePackageOrNamespaceMembers env anc ctx ms t1 = (Inr t, l2)" ..
    show ?thesis
    proof
      fix c assume c: "c \<in> set categoryHeadings"
      obtain rows where rows: "categoryTable c t = add_children (categoryTable c t1) rows"
          "length rows = memberRows c ms"
        using Cons.IH[OF r] c by blast
      show "\<exists>rows. categoryTable c t = add_children (categoryTable c t0) rows
                  \<and> length rows = memberRows c (m # ms)"
      proof (cases "c = c0")
        case True
        then have "categoryTable c t = add_children (categoryTable c t0) (?row # rows)"
          using rows(1) t1 c by (simp add: push_row_def add_children_append)
        moreover have "length (?row # rows) = memberRows c (m # ms)"
          using rows(2) Some True by (simp add: memberRows_def)
        ultimately show ?thesis by blast
      next
        case False
        then have "categoryTable c t = add_children (categoryTable c t0) rows"
          using rows(1) t1 c by simp
        moreover have "length rows = memberRows c (m # ms)"
          using rows(2) Some False by (simp add: memberRows_def)
        ultimately show ?thesis by blast
      qed
    qed
  qed
qed

lemma new_table_content:
  "c \<in> set categoryHeadings \<Longrightarrow> \<exists>hs. categoryTable c newContainerTables = BlockHtmlNode ''table'' None [hs]"
  by (auto simp: categoryHeadings_def categoryTable_def newContainerTables_def table_def tag_def)

lemma content_length_table_rows:
  assumes "c \<in> set categoryHeadings"
  shows "content_length (add_children (categoryTable c newContainerTables) rows) = Suc (length rows)"
proof -
  obtain hs where "categoryTable c newContainerTables = BlockHtmlNode ''table'' None [hs]"
    using new_table_content[OF assms] by blast
  then show ?thesis by (simp add: content_length_def)
qed









lemma writeParameterTables_sections:
  assumes w: "writeParameterTables env out item ctx = (Inr out', l)" and inv: "emitter_inv out"
  shows "\<exists>pl returns.
           parameterList item = Some pl
         \<and> appended out out'
             ((if parameters pl = [] then []
               else [tag ''h3'' (S ''section-heading'') (S ''Parameters''),
                     add_children (table [''Parameter'', ''Type'', ''Description''])
                       (map (\<lambda>i. tr [CellStr (parameterName (parameters pl ! i)),
                                       CellStr (parameterTypeExcerpt (parameters pl ! i)),
                                       descriptionCell env ctx (parameters pl) i])
                            [0..<length (parameters pl)])])
              @ returns)
         \<and> (returns = []
              \<or> (\<exists>row. returns = [tag ''h3'' (S ''section-heading'') (S ''Returns''),
                                    add_children (table [''Type'', ''Description'']) [row]]))"
proof -
  from w obtain pl where pl: "parameterList item = Some pl"
    by (cases "parameterList item") (auto simp: writeParameterTables_def)
  let ?ps = "parameters pl"
  let ?tbl0 = "table [''Parameter'', ''Type'', ''Description'']"
  let ?rows = "map (\<lambda>i. tr [CellStr (parameterName (?ps ! i)), CellStr (parameterTypeExcerpt (?ps ! i)),
                               descriptionCell env ctx ?ps i]) [0..<length ?ps]"
  let ?sec = "if ?ps = [] then []
              else [tag ''h3'' (S ''section-heading'') (S ''Parameters''), add_children ?tbl0 ?rows]"
  obtain x l1 where r: "parameterRows env ctx ?ps (CellStr []) ?tbl0 = (x, l1)"
    by (cases "parameterRows env ctx ?ps (CellStr []) ?tbl0")
  with w pl obtain t where x: "x = Inr t"
    by (cases x) (auto simp: writeParameterTables_def)
  have t: "t = add_children ?tbl0 ?rows"
    using parameterRows_general[OF r[unfolded x]] by (simp add: row_with_empty[abs_def])
  have cl: "content_length t > 1 \<longleftrightarrow> ?ps \<noteq> []"
    unfolding t by (simp add: content_length_def table_def tag_def)
  define o1 where "o1 = (if content_length t > 1
                         then appendChild t (appendChild (tag ''h3'' (S ''section-heading'') (S ''Parameters'')) out)
                         else out)"
  have a1: "appended out o1 ?sec"
  proof (cases "?ps = []")
    case True
    then show ?thesis using cl appended_refl[OF inv] by (simp add: o1_def)
  next
    case False
    then show ?thesis
      using cl appended_append2[OF appended_refl[OF inv],
                where n = "tag ''h3'' (S ''section-heading'') (S ''Parameters'')" and m = t]
      by (simp add: o1_def t)
  qed
  have "out' = o1
        \<or> (\<exists>row. out' = appendChild (add_children (table [''Type'', ''Description'']) [row])
                           (appendChild (tag ''h3'' (S ''section-heading'') (S ''Returns'')) o1))"
    using w pl r x
    by (auto simp: writeParameterTables_def Let_def o1_def push_row_def
             simp del: createDocNodes.simps
             split: option.splits prod.splits sum.splits)
  then show ?thesis
  proof
    assume "out' = o1"
    then have "appended out out' (?sec @ [])" using a1 by simp
    then show ?thesis using pl by blast
  next
    assume "\<exists>row. out' = appendChild (add_children (table [''Type'', ''Description'']) [row])
                           (appendChild (tag ''h3'' (S ''section-heading'') (S ''Returns'')) o1)"
    then obtain row where o: "out' = appendChild (add_children (table [''Type'', ''Description'']) [row])
                           (appendChild (tag ''h3'' (S ''section-heading'') (S ''Returns'')) o1)" ..
    have "appended out out' (?sec @ [tag ''h3'' (S ''section-heading'') (S ''Returns''),
                                      add_children (table [''Type'', ''Description'']) [row]])"
      unfolding o by (rule appended_append2[OF a1])
    then show ?thesis using pl by blast
  qed
qed

lemma writeThrowsSection_sections:
  assumes w: "writeThrowsSection env out item ctx = (Inr out', l)" and inv: "emitter_inv out"
  shows "\<exists>throws. appended out out' throws
           \<and> (throws = []
                \<or> (\<exists>rows. throws = [tag ''h3'' (S ''section-heading'') (S ''Throws''),
                                       add_children (table [''Error'']) rows]))"
proof (cases "tsdocComment item")
  case None
  then show ?thesis using w appended_refl[OF inv] by (auto simp: writeThrowsSection_none)
next
  case (Some c)
  then show ?thesis using writeThrowsSection_some[OF Some w inv] by blast
qed

section \<open>The claims\<close>

text \<open>
  C1 (as amended). On the page of a package or namespace, the heading and table of a member
  category are appended to the page's container exactly when the category has at least
  one member, and the table then holds the header row followed by one row for each member
  of the category. (\<open>appended out out' ns\<close>: from \<open>out\<close> to \<open>out'\<close> the nodes \<open>ns\<close> were
  appended to the current node of the builder, here the main container of the page.)
\<close>

theorem container_section_iff_member:
  assumes w: "writePackageOrNamespaceTables env ancestors out apiContainer contextApiItem = (Inr out', l)"
    and inv: "emitter_inv out"
  shows "\<exists>t. appended out out'
              (concat (map (\<lambda>c. if 1 \<le> memberRows c (listedMembers ancestors apiContainer)
                                 then [tag ''h3'' (S ''section-heading'') (S c), categoryTable c t]
                                 else [])
                           categoryHeadings))
          \<and> (\<forall>c \<in> set categoryHeadings.
                \<exists>rows. categoryTable c t = add_children (categoryTable c newContainerTables) rows
                      \<and> length rows = memberRows c (listedMembers ancestors apiContainer))"
proof -
  obtain anc' ms t where m: "apiMembersOf ancestors apiContainer = Some (anc', ms)"
      and r: "writePackageOrNamespaceMembers env anc' contextApiItem ms newContainerTables = (Inr t, l)"
      and o: "out' = appendContainerSections t out"
    using writePackageOrNamespaceTables_result[OF w] by blast
  have lm: "listedMembers ancestors apiContainer = ms" using m by (simp add: listedMembers_def)
  note rows = container_members_rows[OF r]
  have s: "sectionNodes c (categoryTable c t)
             = (if 1 \<le> memberRows c ms then [tag ''h3'' (S ''section-heading'') (S c), categoryTable c t] else [])"
    if c: "c \<in> set categoryHeadings" for c
  proof -
    obtain rs where rs: "categoryTable c t = add_children (categoryTable c newContainerTables) rs"
        "length rs = memberRows c ms"
      using rows c by blast
    have "content_length (categoryTable c t) = Suc (memberRows c ms)"
      using content_length_table_rows[OF c, of rs] rs by simp
    then show ?thesis by (simp add: sectionNodes_def)
  qed
  have eq: "map (\<lambda>c. sectionNodes c (categoryTable c t)) categoryHeadings
        = map (\<lambda>c. if 1 \<le> memberRows c ms
                    then [tag ''h3'' (S ''section-heading'') (S c), categoryTable c t] else [])
              categoryHeadings"
    by (rule map_cong[OF refl]) (rule s)
  have "appended out out'
               (concat (map (\<lambda>c. if 1 \<le> memberRows c ms
                    then [tag ''h3'' (S ''section-heading'') (S c), categoryTable c t] else [])
              categoryHeadings))"
    using appendContainerSections_appended[OF inv, of t] unfolding o eq .
  then show ?thesis using rows lm by blast
qed

text \<open>
  The package \<open>pkg\<close> with one class and one namespace: the tables are written and the
  sections of the two categories with one member are appended.
\<close>

theorem container_section_iff_member_witness:
  "writePackageOrNamespaceTables example_env [exModel] pageStart fooPackage ([exModel], fooPackage)
     = (Inr (projr (fst (writePackageOrNamespaceTables example_env [exModel] pageStart fooPackage
                           ([exModel], fooPackage)))),
        snd (writePackageOrNamespaceTables example_env [exModel] pageStart fooPackage
               ([exModel], fooPackage)))
   \<and> emitter_inv pageStart
   \<and> map (\<lambda>c. memberRows c (listedMembers [exModel] fooPackage)) categoryHeadings
       = [1, 0, 0, 0, 1, 0, 0, 0]
   \<and> (\<exists>t. appended pageStart
             (projr (fst (writePackageOrNamespaceTables example_env [exModel] pageStart fooPackage
                            ([exModel], fooPackage))))
             (concat (map (\<lambda>c. if 1 \<le> memberRows c (listedMembers [exModel] fooPackage)
                                then [tag ''h3'' (S ''section-heading'') (S c), categoryTable c t]
                                else [])
                          categoryHeadings))
          \<and> (\<forall>c \<in> set categoryHeadings.
                \<exists>rows. categoryTable c t = add_children (categoryTable c newContainerTables) rows
                      \<and> length rows = memberRows c (listedMembers [exModel] fooPackage)))"
proof -
  have w: "writePackageOrNamespaceTables example_env [exModel] pageStart fooPackage ([exModel], fooPackage)
     = (Inr (projr (fst (writePackageOrNamespaceTables example_env [exModel] pageStart fooPackage
                           ([exModel], fooPackage)))),
        snd (writePackageOrNamespaceTables example_env [exModel] pageStart fooPackage
               ([exModel], fooPackage)))"
    by code_simp
  have m: "map (\<lambda>c. memberRows c (listedMembers [exModel] fooPackage)) categoryHeadings
       = [1, 0, 0, 0, 1, 0, 0, 0]"
    by code_simp
  show ?thesis
    by (intro conjI w inv_pageStart m container_section_iff_member[OF w inv_pageStart])
qed

text \<open>
  C1 as stated fails: the category of classes of the package \<open>pkg\<close> has exactly one
  member, and the page of the package shows the heading \<open>Classes\<close> and its table.
\<close>

theorem single_member_section_shown:
  "memberRows ''Classes'' (listedMembers [exModel] fooPackage) = 1
   \<and> last (snd (writeApiItemPage example_env [exModel] fooPackage))
       = WriteFile ''out/pkg.html''
           (pageOf example_env
              [TextHtmlNode ''a'' (Some [(''class'', ''breadcrumb''), (''href'', ''./index.html'')]) ''Home'',
               TextHtmlNode ''span'' (Some [(''class'', ''breadcrumb'')]) '' / '',
               TextHtmlNode ''a'' (Some [(''class'', ''breadcrumb''), (''href'', ''./pkg.html'')]) ''pkg'',
               TextHtmlNode ''h1'' (Some [(''class'', ''page-header'')]) ''pkg package'',
               TextHtmlNode ''h3'' (Some [(''class'', ''section-heading'')]) ''Classes'',
               BlockHtmlNode ''table'' None
                 [BlockHtmlNode ''thead'' None
                    [BlockHtmlNode ''tr'' None
                       [TextHtmlNode ''th'' None ''Class'', TextHtmlNode ''th'' None ''Description'']],
                  BlockHtmlNode ''tr'' None
                    [BlockHtmlNode ''td'' None
                       [TextHtmlNode ''a'' (Some [(''class'', ''ref''), (''href'', ''./pkg.Foo.html'')]) ''Foo''],
                     BlockHtmlNode ''td'' None
                       [BlockHtmlNode ''div'' (Some [(''class'', ''description'')]) []]]],
               TextHtmlNode ''h3'' (Some [(''class'', ''section-heading'')]) ''Namespaces'',
               BlockHtmlNode ''table'' None
                 [BlockHtmlNode ''thead'' None
                    [BlockHtmlNode ''tr'' None
                       [TextHtmlNode ''th'' None ''Namespace'', TextHtmlNode ''th'' None ''Description'']],
                  BlockHtmlNode ''tr'' None
                    [BlockHtmlNode ''td'' None
                       [TextHtmlNode ''a'' (Some [(''class'', ''ref''), (''href'', ''./pkg.Foo.html'')]) ''Foo''],
                     BlockHtmlNode ''td'' None
                       [BlockHtmlNode ''div'' (Some [(''class'', ''description'')]) []]]]])"
  by code_simp

text \<open>
  C2 (as amended). The page of a callable item (constructor, construct signature, method,
  method signature or function) that has a doc comment ends, when it is generated, with
  the heading \<open>Throws\<close> followed by the throws table, which holds the header row and one
  row for each \<open>@throws\<close> block of the comment: no row when there is none. Before the
  page is written only lines are logged.
\<close>

theorem throws_section_of_documented_callable:
  assumes k: "kind apiItem \<in> callableKinds"
    and c: "tsdocComment apiItem = Some c"
    and w: "writeApiItemPageWithSiblings env ancestors [apiItem] = (Inr (), effs)"
  shows "\<exists>l above rows.
           effs = l @ [WriteFile (pathJoin env (outputFolder env) (getFilenameForApiItem env ancestors apiItem))
                          (pageOf env (above @ [tag ''h3'' (S ''section-heading'') (S ''Throws''),
                                                add_children (table [''Error'']) rows]))]
           \<and> writtenFiles l = []
           \<and> length rows = length (filter (\<lambda>x. fst x = ''@THROWS'') (customBlocks c))"
proof -
  have k': "kind apiItem \<in> {Constructor, ConstructSignature, Method, MethodSignature, Function}"
    using k by (simp add: callableKinds_def)
  obtain out l1 out' l2 ns where
      t: "writePageTop env ancestors [apiItem] = (Inr out, l1)" and l1: "writtenFiles l1 = []"
      and kt: "writeKindTables env ancestors (ancestors, apiItem) [apiItem] out = (Inr out', l2)"
      and a: "appended pageStart out' ns"
      and e: "effs = l1 @ l2 @ [WriteFile (pathJoin env (outputFolder env)
                                             (getFilenameForApiItem env ancestors apiItem))
                                          (pageOf env ns)]"
    using page_structure[OF w] by blast
  obtain ns0 where a0: "appended pageStart out ns0"
    using writePageTop_appended[OF t] by blast
  obtain x la where p: "writeParameterTables env out apiItem (ancestors, apiItem) = (x, la)"
    by (cases "writeParameterTables env out apiItem (ancestors, apiItem)")
  with kt k' obtain o1 where x: "x = Inr o1"
    by (cases x) (auto simp: callable_kind_tables)
  obtain lb where th: "writeThrowsSection env o1 apiItem (ancestors, apiItem) = (Inr out', lb)"
      and l2: "l2 = la @ lb"
    using kt p x by (cases "writeThrowsSection env o1 apiItem (ancestors, apiItem)")
      (auto simp: callable_kind_tables[OF k'] prepend_def)
  obtain ms1 where a1: "appended out o1 ms1" and la: "writtenFiles la = []"
    using writeParameterTables_appended[OF p[unfolded x] appended_inv[OF a0]] by blast
  obtain rows where a2: "appended o1 out'
        [tag ''h3'' (S ''section-heading'') (S ''Throws''), add_children (table [''Error'']) rows]"
      and len: "length rows = length (filter (\<lambda>x. fst x = ''@THROWS'') (customBlocks c))"
      and lb: "writtenFiles lb = []"
    using writeThrowsSection_some[OF c th appended_inv[OF a1]] by blast
  have "appended pageStart out'
          ((ns0 @ ms1) @ [tag ''h3'' (S ''section-heading'') (S ''Throws''), add_children (table [''Error'']) rows])"
    by (rule appended_trans[OF appended_trans[OF a0 a1] a2])
  then have ns: "ns = (ns0 @ ms1) @ [tag ''h3'' (S ''section-heading'') (S ''Throws''),
                                     add_children (table [''Error'']) rows]"
    by (rule appended_unique[OF inv_pageStart a])
  have "effs = (l1 @ l2) @ [WriteFile (pathJoin env (outputFolder env)
                                             (getFilenameForApiItem env ancestors apiItem))
                (pageOf env ((ns0 @ ms1) @ [tag ''h3'' (S ''section-heading'') (S ''Throws''),
                                     add_children (table [''Error'']) rows]))]"
    using e ns by simp
  moreover have "writtenFiles (l1 @ l2) = []" using l1 l2 la lb by simp
  ultimately show ?thesis using len by blast
qed

text \<open>
  A function in the package \<open>pkg\<close> whose doc comment is empty: its page ends with the
  heading and a table that has the header row only.
\<close>

theorem throws_section_of_documented_callable_witness:
  "kind documentedFunction \<in> callableKinds
   \<and> tsdocComment documentedFunction
       = Some \<lparr>summarySection = [], remarksBlock = None, returnsBlock = None, customBlocks = []\<rparr>
   \<and> writeApiItemPageWithSiblings example_env [exModel, fooPackage, fooEntryPoint] [documentedFunction]
       = (Inr (),
          [WriteFile ''out/pkg.f.html''
             (pageOf example_env
                [TextHtmlNode ''a'' (Some [(''class'', ''breadcrumb''), (''href'', ''./index.html'')]) ''Home'',
                 TextHtmlNode ''span'' (Some [(''class'', ''breadcrumb'')]) '' / '',
                 TextHtmlNode ''a'' (Some [(''class'', ''breadcrumb''), (''href'', ''./pkg.html'')]) ''pkg'',
                 TextHtmlNode ''span'' (Some [(''class'', ''breadcrumb'')]) '' / '',
                 TextHtmlNode ''a'' (Some [(''class'', ''breadcrumb''), (''href'', ''./pkg.f.html'')]) ''f'',
                 TextHtmlNode ''h1'' (Some [(''class'', ''page-header'')]) ''f function'',
                 BlockHtmlNode ''div'' (Some [(''class'', ''summary'')]) [],
                 TextHtmlNode ''h3'' (Some [(''class'', ''section-heading'')]) ''Throws'',
                 BlockHtmlNode ''table'' None
                   [BlockHtmlNode ''thead'' None
                      [BlockHtmlNode ''tr'' None [TextHtmlNode ''th'' None ''Error'']]]])])"
proof -
  have c: ?thesis by code_simp
  note t = throws_section_of_documented_callable[OF c[THEN conjunct1] c[THEN conjunct2, THEN conjunct1]
      c[THEN conjunct2, THEN conjunct2]]
  from t show ?thesis by - (rule c)
qed

text \<open>
  C2 as stated fails: a function without a doc comment gets a page without a \<open>Throws\<close>
  section.
\<close>

theorem undocumented_callable_without_throws:
  "kind plainFunction \<in> callableKinds \<and> tsdocComment plainFunction = None
   \<and> writeApiItemPage example_env [exModel, fooPackage, fooEntryPoint] plainFunction
       = (Inr (),
          [WriteFile ''out/pkg.f.html''
             (pageOf example_env
                [TextHtmlNode ''a'' (Some [(''class'', ''breadcrumb''), (''href'', ''./index.html'')]) ''Home'',
                 TextHtmlNode ''span'' (Some [(''class'', ''breadcrumb'')]) '' / '',
                 TextHtmlNode ''a'' (Some [(''class'', ''breadcrumb''), (''href'', ''./pkg.html'')]) ''pkg'',
                 TextHtmlNode ''span'' (Some [(''class'', ''breadcrumb'')]) '' / '',
                 TextHtmlNode ''a'' (Some [(''class'', ''breadcrumb''), (''href'', ''./pkg.f.html'')]) ''f'',
                 TextHtmlNode ''h1'' (Some [(''class'', ''page-header'')]) ''f function''])])"
  by code_simp

text \<open>
  C3. In every builder state, \<open>closeNode k\<close> called when the stack holds only the root, or
  with \<open>k\<close> different from the type of the current node, throws an error (the type check
  comes first and decides the message) and returns the state it was given: stack, current
  node and store are unchanged.
\<close>

theorem closeNode_failure_keeps_state:
  assumes "length (root_stack e) = 1 \<or> otype (heap e ! current e) \<noteq> k"
  shows "closeNode k e =
           (Inl (Error (if otype (heap e ! current e) \<noteq> k
                        then ''Unexpected closing tag. Expected: '' @ otype (heap e ! current e)
                               @ '' Actual: '' @ k
                        else ''Unexpected closing tag: '' @ k)), e)"
  using assms by (auto simp: closeNode_def)

theorem closeNode_failure_keeps_state_witness:
  "length (root_stack (new_HtmlEmitter ''body'')) = 1
   \<and> closeNode ''body'' (new_HtmlEmitter ''body'')
       = (Inl (Error ''Unexpected closing tag: body''), new_HtmlEmitter ''body'')
   \<and> otype (heap (openNode (BlockHtmlNode ''div'' None []) (new_HtmlEmitter ''body''))
              ! current (openNode (BlockHtmlNode ''div'' None []) (new_HtmlEmitter ''body''))) \<noteq> ''p''
   \<and> closeNode ''p'' (openNode (BlockHtmlNode ''div'' None []) (new_HtmlEmitter ''body''))
       = (Inl (Error ''Unexpected closing tag. Expected: div Actual: p''),
          openNode (BlockHtmlNode ''div'' None []) (new_HtmlEmitter ''body''))"
proof -
  have 1: "length (root_stack (new_HtmlEmitter ''body'')) = 1"
    by (simp add: new_HtmlEmitter_def)
  have 2: "otype (heap (openNode (BlockHtmlNode ''div'' None []) (new_HtmlEmitter ''body''))
              ! current (openNode (BlockHtmlNode ''div'' None []) (new_HtmlEmitter ''body''))) = ''div''"
    by (simp add: heap_openNode(2) nth_heap_openNode_new)
  have 3: "otype (heap (new_HtmlEmitter ''body'') ! current (new_HtmlEmitter ''body'')) = ''body''"
    by (simp add: new_HtmlEmitter_def)
  show ?thesis
    using closeNode_failure_keeps_state[of "new_HtmlEmitter ''body''" "''body''"]
      closeNode_failure_keeps_state[of "openNode (BlockHtmlNode ''div'' None []) (new_HtmlEmitter ''body'')" "''p''"]
      1 2 3
    by simp
qed



text \<open>
  C5. The file names of the items of one run are not all distinct. A class and a namespace
  declared under one name in one package (merged declarations, each the merged sibling
  of the other) are distinct items with the same file name, and the run over the package
  writes that file twice, the page of the namespace replacing the page of the class. An
  interface and a namespace declared under one name are written as one page, to one
  file.
\<close>

theorem filename_collision:
  "fooClass \<noteq> fooNamespace
   \<and> getFilenameForApiItem example_env [exModel, fooPackage, fooEntryPoint] fooClass = ''pkg.Foo.html''
   \<and> getFilenameForApiItem example_env [exModel, fooPackage, fooEntryPoint] fooNamespace = ''pkg.Foo.html''
   \<and> writtenFiles (snd (writeApiItemPage example_env [exModel] fooPackage))
       = [''out/pkg.Foo.html'', ''out/pkg.Foo.html'', ''out/pkg.html'']
   \<and> barInterface \<noteq> barNamespace
   \<and> writtenFiles (snd (writeApiItemPage example_env [exModel] barPackage))
       = [''out/pkg.Bar.html'', ''out/pkg.html'']"
  by code_simp

text \<open>
  C6. A hierarchy item that is a constructor, construct signature, method, method signature
  or function with overload index \<open>n\<close> contributes its encoded display name followed,
  when \<open>n > 1\<close>, by \<open>_\<close> and the decimal text of \<open>n - 1\<close> (index 2 gives \<open>_1\<close>, index 3
  gives \<open>_2\<close>), and by nothing when \<open>n \<le> 1\<close>; this is how the file name of such an item
  ends.
\<close>

theorem overload_suffix:
  assumes "kind h \<in> {Constructor, ConstructSignature, Method, MethodSignature, Function}"
    and "parameterList h = Some pl"
  shows "hierarchyStep env baseName h
           = baseName @ ''.'' @ getSafeFilenameForName env (displayName h)
             @ (if overloadIndex pl > 1 then ''_'' @ number_text (overloadIndex pl - 1) else [])
         \<and> getFilenameForApiItem env ancestors h
           = foldl (hierarchyStep env) [] ancestors @ ''.'' @ getSafeFilenameForName env (displayName h)
             @ (if overloadIndex pl > 1 then ''_'' @ number_text (overloadIndex pl - 1) else [])
             @ ''.html''
         \<and> (overloadIndex pl = 2 \<longrightarrow> qualifiedName env h = getSafeFilenameForName env (displayName h) @ ''_1'')
         \<and> (overloadIndex pl = 3 \<longrightarrow> qualifiedName env h = getSafeFilenameForName env (displayName h) @ ''_2'')
         \<and> (overloadIndex pl \<le> 1 \<longrightarrow> qualifiedName env h = getSafeFilenameForName env (displayName h))"
proof -
  have k: "kind h \<noteq> Model" "kind h \<noteq> EntryPoint" "kind h \<noteq> Package"
    using assms(1) by auto
  have q: "qualifiedName env h = getSafeFilenameForName env (displayName h)
             @ (if overloadIndex pl > 1 then ''_'' @ number_text (overloadIndex pl - 1) else [])"
    using assms(2) by (simp add: qualifiedName_def)
  have s: "hierarchyStep env b h = b @ ''.'' @ qualifiedName env h" for b
    using k by (simp add: hierarchyStep_def)
  have n: "number_text 1 = ''1''" "number_text 2 = ''2''"
    by (simp_all add: number_text_def nat_text_digit)
  show ?thesis
    using k q s n by (simp add: getFilenameForApiItem_def getHierarchy_def)
qed

text \<open>
  The second overload of a method, and a function with overload index 1.
\<close>

theorem overload_suffix_witness:
  "kind secondOverload \<in> {Constructor, ConstructSignature, Method, MethodSignature, Function}
   \<and> parameterList secondOverload = Some \<lparr>overloadIndex = 2, parameters = []\<rparr>
   \<and> hierarchyStep example_env ''pkg.Foo'' secondOverload = ''pkg.Foo.m_1''
   \<and> getFilenameForApiItem example_env [exModel, fooPackage, fooEntryPoint, fooClass] secondOverload
       = ''pkg.Foo.m_1.html''
   \<and> kind plainFunction \<in> {Constructor, ConstructSignature, Method, MethodSignature, Function}
   \<and> parameterList plainFunction = Some \<lparr>overloadIndex = 1, parameters = []\<rparr>
   \<and> getFilenameForApiItem example_env [exModel, fooPackage, fooEntryPoint] plainFunction = ''pkg.f.html''"
proof -
  have c: ?thesis by code_simp
  note t1 = overload_suffix[OF c[THEN conjunct1] c[THEN conjunct2, THEN conjunct1],
      of example_env "''pkg.Foo''" "[exModel, fooPackage, fooEntryPoint, fooClass]"]
  have k: "kind plainFunction \<in> {Constructor, ConstructSignature, Method, MethodSignature, Function}"
    and p: "parameterList plainFunction = Some \<lparr>overloadIndex = 1, parameters = []\<rparr>"
    using c by blast+
  note t2 = overload_suffix[OF k p, of example_env "[]" "[exModel, fooPackage, fooEntryPoint]"]
  from t1 t2 show ?thesis by - (rule c)
qed



text \<open>
  C8. A link whose code destination the model does not resolve, reporting an error message,
  is translated to no node: the builder is unchanged, no exception is thrown, and exactly
  one line is logged. Hence the translation of any doc nodes gives the same result (nodes
  or exception) as the translation without their unresolved links, and a translation
  that returns has logged exactly one line for each unresolved link.
\<close>

theorem unresolved_link_omitted:
  assumes "truthy_string urlDestination = None"
    and "resolveDeclarationReference env reference contextApiItem
           = \<lparr>resolvedApiItem = None, errorMessage = Some message\<rparr>"
    and "message \<noteq> []"
  shows "translateNode env contextApiItem (DocLinkTag linkText urlDestination (Some reference)) result
           = (Inr result,
              [Log (''WARNING: Unable to resolve reference '' @ [CHR 0x22] @ reference @ [CHR 0x22]
                    @ '': '' @ message)])
         \<and> unresolved env contextApiItem (DocLinkTag linkText urlDestination (Some reference))
         \<and> fst (createDocNodes env contextApiItem nodes)
             = fst (createDocNodes env contextApiItem (pruneNodes env contextApiItem nodes))
         \<and> (\<forall>ns l. createDocNodes env contextApiItem nodes = (Inr ns, l)
                    \<longrightarrow> length l = countUnresolved env contextApiItem nodes)"
  using assms prune_translate(1)[of env contextApiItem nodes] log_count(1)[of env contextApiItem nodes]
  by simp

text \<open>
  A summary with an unresolved link, and the page of a variable with this summary: the
  page is written, without an anchor, after one logged line.
\<close>

theorem unresolved_link_omitted_witness:
  "truthy_string None = None
   \<and> resolveDeclarationReference example_env ''Foo'' ([exModel], linkingVariable)
       = \<lparr>resolvedApiItem = None, errorMessage = Some ''not found''\<rparr>
   \<and> ''not found'' \<noteq> []
   \<and> translateNode example_env ([exModel], linkingVariable) (DocLinkTag None None (Some ''Foo''))
        (new_HtmlEmitter ''body'')
       = (Inr (new_HtmlEmitter ''body''),
          [Log (''WARNING: Unable to resolve reference '' @ [CHR 0x22] @ ''Foo'' @ [CHR 0x22]
                @ '': not found'')])
   \<and> createDocNodes example_env ([exModel], linkingVariable) linkSummary
       = (Inr [BlockHtmlNode ''p'' None [TextHtmlNode ''span'' None ''see '']],
          [Log (''WARNING: Unable to resolve reference '' @ [CHR 0x22] @ ''Foo'' @ [CHR 0x22]
                @ '': not found'')])
   \<and> pruneNodes example_env ([exModel], linkingVariable) linkSummary
       = [DocParagraph [DocPlainText ''see '']]
   \<and> countUnresolved example_env ([exModel], linkingVariable) linkSummary = 1
   \<and> writeApiItemPage example_env [exModel] linkingVariable
       = (Inr (),
          [Log (''WARNING: Unable to resolve reference '' @ [CHR 0x22] @ ''Foo'' @ [CHR 0x22]
                @ '': not found''),
           WriteFile ''out/.v.html''
             (pageOf example_env
                [TextHtmlNode ''a'' (Some [(''class'', ''breadcrumb''), (''href'', ''./index.html'')]) ''Home'',
                 TextHtmlNode ''span'' (Some [(''class'', ''breadcrumb'')]) '' / '',
                 TextHtmlNode ''a'' (Some [(''class'', ''breadcrumb''), (''href'', ''./.v.html'')]) ''v'',
                 TextHtmlNode ''h1'' (Some [(''class'', ''page-header'')]) ''v variable'',
                 BlockHtmlNode ''div'' (Some [(''class'', ''summary'')])
                   [BlockHtmlNode ''p'' None [TextHtmlNode ''span'' None ''see '']]])])"
proof -
  have c: ?thesis by code_simp
  have h1: "truthy_string None = None"
    and h2: "resolveDeclarationReference example_env ''Foo'' ([exModel], linkingVariable)
               = \<lparr>resolvedApiItem = None, errorMessage = Some ''not found''\<rparr>"
    and h3: "''not found'' \<noteq> []"
    using c by blast+
  note t = unresolved_link_omitted[OF h1 h2 h3, of None "new_HtmlEmitter ''body''" linkSummary]
  from t show ?thesis by - (rule c)
qed

text \<open>
  C9. A balanced sequence of builder calls is the flattening of a forest \<open>ns\<close>. Run on a
  new builder it raises no error, leaves only the root on the stack, and \<open>root()\<close> is the
  root node whose children are the trees of the forest: every opened node holds its
  initial content followed, in order, by exactly the nodes appended or opened between its
  \<open>openNode\<close> and the matching \<open>closeNode\<close>.
\<close>

theorem balanced_calls_mirror:
  "\<exists>e'. run (concat (map calls_of ns)) (new_HtmlEmitter rootTag) = (Inr (), e')
        \<and> root e' = BlockHtmlNode rootTag None (map mirror ns)
        \<and> root_stack e' = [0]"
proof -
  obtain e' where r: "run (concat (map calls_of ns)) (new_HtmlEmitter rootTag) = (Inr (), e')"
      "appended (new_HtmlEmitter rootTag) e' (map mirror ns)"
    using run_forest[OF run_calls_of inv_new] by blast
  have st: "root_stack e' = [0]"
    using r(2) by (simp add: appended_def new_HtmlEmitter_def)
  have g: "grown (new_HtmlEmitter rootTag) e' (map mirror ns)"
    using r(2) by (simp add: appended_def)
  have "root e' = BlockHtmlNode rootTag None (map mirror ns)"
    by (rule root_after_grown[OF g, of "[]"]) (simp add: st)
  then show ?thesis using r(1) st by blast
qed

text \<open>
  C10. The page of a callable item (constructor, construct signature, method, method
  signature or function), when it is generated, holds after the head of the page: when
  the item has at least one parameter, the heading \<open>Parameters\<close> and the parameters table,
  then the section of the return type if any, then the section \<open>Throws\<close> if any. The
  table holds the header row and one row for each parameter, in order, with the name of
  the parameter, its type and, as description, the first translated node of the doc
  block of the most recent parameter up to it that has a doc block: the description of a
  parameter without doc block is the one of the row before it, and it is the empty
  string only when no parameter up to it has a doc block.
\<close>

theorem parameter_description_carried_over:
  assumes k: "kind apiItem \<in> callableKinds"
    and w: "writeApiItemPageWithSiblings env ancestors [apiItem] = (Inr (), effs)"
  shows "\<exists>pl top l0 above returns throws l.
           parameterList apiItem = Some pl
         \<and> writePageTop env ancestors [apiItem] = (Inr top, l0)
         \<and> appended pageStart top above
         \<and> (returns = []
              \<or> (\<exists>row. returns = [tag ''h3'' (S ''section-heading'') (S ''Returns''),
                                    add_children (table [''Type'', ''Description'']) [row]]))
         \<and> (throws = []
              \<or> (\<exists>rows. throws = [tag ''h3'' (S ''section-heading'') (S ''Throws''),
                                     add_children (table [''Error'']) rows]))
         \<and> effs = l @ [WriteFile (pathJoin env (outputFolder env) (getFilenameForApiItem env ancestors apiItem))
                          (pageOf env
                             (above
                              @ (if parameters pl = [] then []
                                 else [tag ''h3'' (S ''section-heading'') (S ''Parameters''),
                                       add_children (table [''Parameter'', ''Type'', ''Description''])
                                         (map (\<lambda>i. tr [CellStr (parameterName (parameters pl ! i)),
                                                         CellStr (parameterTypeExcerpt (parameters pl ! i)),
                                                         descriptionCell env (ancestors, apiItem) (parameters pl) i])
                                              [0..<length (parameters pl)])])
                              @ returns @ throws))]
         \<and> writtenFiles l = []"
proof -
  have k': "kind apiItem \<in> {Constructor, ConstructSignature, Method, MethodSignature, Function}"
    using k by (simp add: callableKinds_def)
  obtain out l1 out' l2 ns where
      t: "writePageTop env ancestors [apiItem] = (Inr out, l1)" and l1: "writtenFiles l1 = []"
      and kt: "writeKindTables env ancestors (ancestors, apiItem) [apiItem] out = (Inr out', l2)"
      and a: "appended pageStart out' ns"
      and e: "effs = l1 @ l2 @ [WriteFile (pathJoin env (outputFolder env)
                                             (getFilenameForApiItem env ancestors apiItem))
                                          (pageOf env ns)]"
    using page_structure[OF w] by blast
  obtain ns0 where a0: "appended pageStart out ns0"
    using writePageTop_appended[OF t] by blast
  obtain x la where p: "writeParameterTables env out apiItem (ancestors, apiItem) = (x, la)"
    by (cases "writeParameterTables env out apiItem (ancestors, apiItem)")
  with kt k' obtain o1 where x: "x = Inr o1"
    by (cases x) (auto simp: callable_kind_tables)
  obtain lb where th: "writeThrowsSection env o1 apiItem (ancestors, apiItem) = (Inr out', lb)"
      and l2: "l2 = la @ lb"
    using kt p x by (cases "writeThrowsSection env o1 apiItem (ancestors, apiItem)")
      (auto simp: callable_kind_tables[OF k'] prepend_def)
  let ?sec = "\<lambda>pl. if parameters pl = [] then []
              else [tag ''h3'' (S ''section-heading'') (S ''Parameters''),
                    add_children (table [''Parameter'', ''Type'', ''Description''])
                      (map (\<lambda>i. tr [CellStr (parameterName (parameters pl ! i)),
                                      CellStr (parameterTypeExcerpt (parameters pl ! i)),
                                      descriptionCell env (ancestors, apiItem) (parameters pl) i])
                           [0..<length (parameters pl)])]"
  obtain pl returns where pl: "parameterList apiItem = Some pl"
      and a1: "appended out o1 (?sec pl @ returns)"
      and ret: "returns = []
              \<or> (\<exists>row. returns = [tag ''h3'' (S ''section-heading'') (S ''Returns''),
                                    add_children (table [''Type'', ''Description'']) [row]])"
    using writeParameterTables_sections[OF p[unfolded x] appended_inv[OF a0]] by blast
  have la: "writtenFiles la = []"
    using writeParameterTables_logs[of env out apiItem "(ancestors, apiItem)"] p by simp
  obtain throws where a2: "appended o1 out' throws"
      and thr: "throws = []
              \<or> (\<exists>rows. throws = [tag ''h3'' (S ''section-heading'') (S ''Throws''),
                                     add_children (table [''Error'']) rows])"
    using writeThrowsSection_sections[OF th appended_inv[OF a1]] by blast
  have lb: "writtenFiles lb = []"
    using writeThrowsSection_appended[OF th appended_inv[OF a1]] by simp
  have "appended pageStart out' ((ns0 @ (?sec pl @ returns)) @ throws)"
    by (rule appended_trans[OF appended_trans[OF a0 a1] a2])
  then have ns: "ns = (ns0 @ (?sec pl @ returns)) @ throws"
    by (rule appended_unique[OF inv_pageStart a])
  have e': "effs = (l1 @ l2) @ [WriteFile (pathJoin env (outputFolder env)
                                             (getFilenameForApiItem env ancestors apiItem))
                (pageOf env (ns0 @ ?sec pl @ returns @ throws))]"
    using e ns by simp
  have wl: "writtenFiles (l1 @ l2) = []" using l1 l2 la lb by simp
  show ?thesis
    using pl t a0 ret thr e' wl by blast
qed

text \<open>
  A function \<open>g\<close> with two parameters, the first one documented: on its page the row of
  the second parameter repeats the description of the first; alone, the second parameter
  has the empty description.
\<close>

theorem parameter_description_carried_over_witness:
  "kind twoParameterFunction \<in> callableKinds
   \<and> map tsdocParamBlock exParameters = [Some [DocPlainText ''first''], None]
   \<and> writeApiItemPageWithSiblings example_env [exModel, fooPackage, fooEntryPoint] [twoParameterFunction]
       = (Inr (),
          [WriteFile ''out/pkg.g.html''
             (pageOf example_env
                [TextHtmlNode ''a'' (Some [(''class'', ''breadcrumb''), (''href'', ''./index.html'')]) ''Home'',
                 TextHtmlNode ''span'' (Some [(''class'', ''breadcrumb'')]) '' / '',
                 TextHtmlNode ''a'' (Some [(''class'', ''breadcrumb''), (''href'', ''./pkg.html'')]) ''pkg'',
                 TextHtmlNode ''span'' (Some [(''class'', ''breadcrumb'')]) '' / '',
                 TextHtmlNode ''a'' (Some [(''class'', ''breadcrumb''), (''href'', ''./pkg.g.html'')]) ''g'',
                 TextHtmlNode ''h1'' (Some [(''class'', ''page-header'')]) ''g function'',
                 BlockHtmlNode ''div'' (Some [(''class'', ''summary'')]) [],
                 TextHtmlNode ''h3'' (Some [(''class'', ''section-heading'')]) ''Parameters'',
                 BlockHtmlNode ''table'' None
                   [BlockHtmlNode ''thead'' None
                      [BlockHtmlNode ''tr'' None
                         [TextHtmlNode ''th'' None ''Parameter'', TextHtmlNode ''th'' None ''Type'',
                          TextHtmlNode ''th'' None ''Description'']],
                    BlockHtmlNode ''tr'' None
                      [TextHtmlNode ''td'' None ''a'', TextHtmlNode ''td'' None ''string'',
                       BlockHtmlNode ''td'' None [TextHtmlNode ''span'' None ''first'']],
                    BlockHtmlNode ''tr'' None
                      [TextHtmlNode ''td'' None ''b'', TextHtmlNode ''td'' None ''number'',
                       BlockHtmlNode ''td'' None [TextHtmlNode ''span'' None ''first'']]],
                 TextHtmlNode ''h3'' (Some [(''class'', ''section-heading'')]) ''Throws'',
                 BlockHtmlNode ''table'' None
                   [BlockHtmlNode ''thead'' None
                      [BlockHtmlNode ''tr'' None [TextHtmlNode ''th'' None ''Error'']]]])])
   \<and> descriptionCell example_env ([exModel, fooPackage, fooEntryPoint], twoParameterFunction) exParameters 1
       = CellNode (TextHtmlNode ''span'' None ''first'')
   \<and> descriptionCell example_env ([exModel, fooPackage, fooEntryPoint], twoParameterFunction)
         [exParameters ! 1] 0 = CellStr []"
proof -
  have c: ?thesis by code_simp
  note t = parameter_description_carried_over[OF c[THEN conjunct1]
      c[THEN conjunct2, THEN conjunct2, THEN conjunct1]]
  from t show ?thesis by - (rule c)
qed

end
